theory Spec2Isabelle
  imports Complex_Main
begin

section \<open>utils/paginator.py\<close>

subsection \<open>Python list slicing and string joining\<close>

text \<open>
  \<^verbatim>\<open>xs[m:n]\<close> for a list: a negative index counts from the end, and both indices are
  clamped to \<open>[0, len]\<close>; an upper index below the lower one gives the empty list.
\<close>

definition slice_index :: "nat \<Rightarrow> int \<Rightarrow> nat" where
  "slice_index len i = (if i < 0 then nat (max (i + int len) 0) else min (nat i) len)"

definition py_slice :: "'a list \<Rightarrow> int \<Rightarrow> int \<Rightarrow> 'a list" where
  "py_slice xs m n =
     (let lo = slice_index (length xs) m; hi = slice_index (length xs) n
      in take (hi - lo) (drop lo xs))"

text \<open>\<^verbatim>\<open>sep.join(parts)\<close>\<close>

fun join :: "string \<Rightarrow> string list \<Rightarrow> string" where
  "join sep [] = []"
| "join sep [x] = x"
| "join sep (x # y # ys) = x @ sep @ join sep (y # ys)"

subsection \<open>Paginator\<close>

text \<open>
  The view keeps the page count, the rendering callback, the cursor and the two buttons'
  \<open>disabled\<close> flags. The content type of a page is whatever the callback returns.
\<close>

record 'e paginator =
  pages :: int
  callback :: "int \<Rightarrow> 'e"
  page :: int
  prev_disabled :: bool
  next_disabled :: bool

definition update_buttons :: "'e paginator \<Rightarrow> 'e paginator" where
  "update_buttons p =
     p\<lparr>prev_disabled := (page p \<le> 1), next_disabled := (page p \<ge> pages p)\<rparr>"

definition Paginator_init :: "(int \<Rightarrow> 'e) \<Rightarrow> int \<Rightarrow> 'e paginator" where
  "Paginator_init cb pgs =
     update_buttons
       \<lparr>pages = pgs, callback = cb, page = 1, prev_disabled = False, next_disabled = False\<rparr>"

definition get_page :: "'e paginator \<Rightarrow> int \<Rightarrow> 'e" where
  "get_page p n = callback p n"

text \<open>
  A button handler returns the updated view together with the \<^verbatim>\<open>embeds\<close> argument it
  hands to \<^verbatim>\<open>interaction.response.edit_message\<close>, which is the one-element list
  \<^verbatim>\<open>[embs]\<close>.
\<close>

definition prev_button :: "'e paginator \<Rightarrow> 'e paginator \<times> 'e list" where
  "prev_button p =
     (let p' = update_buttons (p\<lparr>page := max (page p - 1) 1\<rparr>)
      in (p', [callback p' (page p')]))"

definition next_button :: "'e paginator \<Rightarrow> 'e paginator \<times> 'e list" where
  "next_button p =
     (let p' = update_buttons (p\<lparr>page := min (page p + 1) (pages p)\<rparr>)
      in (p', [callback p' (page p')]))"

datatype press = Back | Next

fun press_button :: "'e paginator \<Rightarrow> press \<Rightarrow> 'e paginator" where
  "press_button p Back = fst (prev_button p)"
| "press_button p Next = fst (next_button p)"

definition press_all :: "'e paginator \<Rightarrow> press list \<Rightarrow> 'e paginator" where
  "press_all p bs = foldl press_button p bs"

subsection \<open>StaticPaginator\<close>

text \<open>
  An embed is a record whose \<open>description\<close> may be unset; the other fields of the template
  live in the record's extension and are copied unchanged.
\<close>

record embed =
  description :: "string option"

datatype py_exception =
  ZeroDivisionError | OverflowError | UnboundLocalError | KeyError | TypeError | AttributeError
  | UndefinedValueError

text \<open>
  \<^verbatim>\<open>len(lines) / self.line_limit\<close> is Python's true division of two integers: the exact
  quotient rounded to the nearest double, ties to the even mantissa. A double is kept by
  its value, a rational. \<open>bit_length\<close> is \<^verbatim>\<open>int.bit_length\<close>, and \<open>floor_log2 q\<close> the exponent
  \<open>e\<close> with \<open>2^e \<le> q < 2^(e+1)\<close> of a positive \<open>q\<close>.
\<close>

function bit_length :: "int \<Rightarrow> int" where
  "bit_length n = (if n \<le> 0 then 0 else 1 + bit_length (n div 2))"
  by pat_completeness auto
termination
  by (relation "measure nat") auto

declare bit_length.simps [simp del]

definition floor_log2 :: "rat \<Rightarrow> int" where
  "floor_log2 q =
     (let (n, d) = quotient_of q;
          k = bit_length n - bit_length d
      in if 2 powi k \<le> q then k else k - 1)"

definition round_half_even :: "rat \<Rightarrow> int" where
  "round_half_even x =
     (let f = \<lfloor>x\<rfloor>; r = x - of_int f
      in if r < 1 / 2 then f else if 1 / 2 < r then f + 1 else if even f then f else f + 1)"

text \<open>
  Rounding to a double: 53 significant bits from the exponent \<open>-1022\<close> up, multiples of
  \<open>2^-1074\<close> below it (so a quotient under \<open>2^-1075\<close> becomes \<open>0.0\<close>), and OverflowError
  ("integer division result too large for a float") from \<open>2^1024\<close> on.
\<close>

definition double_round :: "rat \<Rightarrow> py_exception + rat" where
  "double_round q =
     (if q = 0 then Inr 0
      else
        (let a = \<bar>q\<bar>;
             e = max (floor_log2 a) (- 1022);
             quantum = 2 powi (e - 52);
             v = of_int (round_half_even (a / quantum)) * quantum
         in if 2 powi 1024 \<le> v then Inl OverflowError else Inr (sgn q * v)))"

definition true_divide :: "int \<Rightarrow> int \<Rightarrow> py_exception + rat" where
  "true_divide a b =
     (if b = 0 then Inl ZeroDivisionError else double_round (of_int a / of_int b))"

text \<open>\<^verbatim>\<open>math.ceil(len(lines) / self.line_limit)\<close>: the ceiling of that double.\<close>

definition page_count :: "nat \<Rightarrow> int \<Rightarrow> py_exception + int" where
  "page_count len line_limit =
     (case true_divide (int len) line_limit of
        Inl e \<Rightarrow> Inl e
      | Inr x \<Rightarrow> Inr \<lceil>x\<rceil>)"

definition static_callback ::
  "string list \<Rightarrow> int \<Rightarrow> 'a embed_scheme \<Rightarrow> int \<Rightarrow> 'a embed_scheme list" where
  "static_callback lines line_limit base_embed pg =
     (let m = (pg - 1) * line_limit;
          n = pg * line_limit;
          emb = base_embed\<lparr>description := Some (join [CHR 0x0A] (py_slice lines m n))\<rparr>
      in [emb])"

text \<open>
  \<open>base_embed\<close> is the template after \<^verbatim>\<open>base_embed or discord.Embed()\<close>.
\<close>

definition StaticPaginator_init ::
  "string list \<Rightarrow> int \<Rightarrow> 'a embed_scheme \<Rightarrow> py_exception + ('a embed_scheme list) paginator"
  where
  "StaticPaginator_init lines line_limit base_embed =
     (case page_count (length lines) line_limit of
        Inl e \<Rightarrow> Inl e
      | Inr pgs \<Rightarrow> Inr (Paginator_init (static_callback lines line_limit base_embed) pgs))"

section \<open>utils/api.py\<close>

subsection \<open>JSON values and the Python operations the handlers apply to them\<close>

text \<open>
  A parsed request body or a stored settings document. A JSON object is kept as the list
  of its items in order. Numbers are the integers: a number that Python parses to a float
  (one written with a fraction or an exponent) is outside the model.
\<close>

datatype json =
  JNull | JBool bool | JInt int | JStr string | JArr "json list" | JObj "(string \<times> json) list"

type_synonym dict = "(string \<times> json) list"

text \<open>Truth value of a Python object: \<^verbatim>\<open>if x\<close>, \<^verbatim>\<open>not x\<close>.\<close>

fun truthy :: "json \<Rightarrow> bool" where
  "truthy JNull = False"
| "truthy (JBool b) = b"
| "truthy (JInt n) = (n \<noteq> 0)"
| "truthy (JStr s) = (s \<noteq> [])"
| "truthy (JArr xs) = (xs \<noteq> [])"
| "truthy (JObj kvs) = (kvs \<noteq> [])"

text \<open>\<^verbatim>\<open>d.get(k)\<close>: \<^verbatim>\<open>None\<close> for a missing key; only a dict has the method.\<close>

fun py_get :: "json \<Rightarrow> string \<Rightarrow> py_exception + json" where
  "py_get (JObj kvs) k = Inr (case map_of kvs k of None \<Rightarrow> JNull | Some v \<Rightarrow> v)"
| "py_get _ k = Inl AttributeError"

text \<open>\<^verbatim>\<open>d[k]\<close> with a string key: a dict raises KeyError for a missing key, and every other
  JSON value raises TypeError.\<close>

fun py_item :: "json \<Rightarrow> string \<Rightarrow> py_exception + json" where
  "py_item (JObj kvs) k = (case map_of kvs k of None \<Rightarrow> Inl KeyError | Some v \<Rightarrow> Inr v)"
| "py_item _ k = Inl TypeError"

text \<open>\<^verbatim>\<open>for x in v\<close>: a list gives its elements, a dict its keys, a string its characters.\<close>

fun py_iter :: "json \<Rightarrow> py_exception + json list" where
  "py_iter (JArr xs) = Inr xs"
| "py_iter (JObj kvs) = Inr (map (\<lambda>kv. JStr (fst kv)) kvs)"
| "py_iter (JStr s) = Inr (map (\<lambda>c. JStr [c]) s)"
| "py_iter _ = Inl TypeError"

text \<open>
  \<^verbatim>\<open>a == b\<close>: a boolean equals the integer 0 or 1; two lists are equal when they have the
  same length and equal elements; two dicts when they have the same keys and equal values,
  in any order; values of different kinds are unequal.
\<close>

fun py_eq :: "json \<Rightarrow> json \<Rightarrow> bool"
  and py_eq_list :: "json list \<Rightarrow> json list \<Rightarrow> bool"
  and py_eq_items :: "(string \<times> json) list \<Rightarrow> (string \<times> json) list \<Rightarrow> bool" where
  "py_eq JNull JNull = True"
| "py_eq (JBool a) (JBool b) = (a = b)"
| "py_eq (JBool a) (JInt n) = (n = (if a then 1 else 0))"
| "py_eq (JInt n) (JBool b) = (n = (if b then 1 else 0))"
| "py_eq (JInt m) (JInt n) = (m = n)"
| "py_eq (JStr s) (JStr t) = (s = t)"
| "py_eq (JArr xs) (JArr ys) = py_eq_list xs ys"
| "py_eq (JObj kvs) (JObj kvs') =
     (length (remdups (map fst kvs)) = length (remdups (map fst kvs')) \<and> py_eq_items kvs kvs')"
| "py_eq _ _ = False"
| "py_eq_list [] [] = True"
| "py_eq_list (x # xs) (y # ys) = (py_eq x y \<and> py_eq_list xs ys)"
| "py_eq_list _ _ = False"
| "py_eq_items [] kvs' = True"
| "py_eq_items ((k, v) # kvs) kvs' =
     ((case map_of kvs' k of None \<Rightarrow> False | Some v' \<Rightarrow> py_eq v v') \<and> py_eq_items kvs kvs')"

definition py_in :: "json \<Rightarrow> json list \<Rightarrow> bool" where
  "py_in v xs = list_ex (\<lambda>x. py_eq x v) xs"

text \<open>\<^verbatim>\<open>d[k] = v\<close> on a dict: an existing key keeps its position.\<close>

fun dict_set :: "dict \<Rightarrow> string \<Rightarrow> json \<Rightarrow> dict" where
  "dict_set [] k v = [(k, v)]"
| "dict_set ((k', v') # kvs) k v = (if k' = k then (k, v) # kvs else (k', v') # dict_set kvs k v)"

subsection \<open>Errors\<close>

text \<open>
  A handler ends with a response, with a raised \<^verbatim>\<open>HTTPException\<close> (status and detail),
  or with another exception that nothing catches.
\<close>

datatype error = HTTPException nat string | Unhandled py_exception

subsection \<open>Documents and the bot\<close>

text \<open>
  The token document as \<^verbatim>\<open>GET_get_token\<close> writes it; \<^verbatim>\<open>link_string\<close> is absent until
  \<^verbatim>\<open>POST_authorize_token\<close> sets it. Times are whole seconds: \<^verbatim>\<open>expires_at\<close> is stored as
  \<^verbatim>\<open>int(now) + 2.592e6\<close>, a float with an integral value. The store has no schema: a
  document without \<^verbatim>\<open>expires_at\<close> has \<open>None\<close> there, and \<^verbatim>\<open>token_obj["expires_at"]\<close> raises
  KeyError on it.
\<close>

record token_doc =
  tok_id :: string
  tok_token :: string
  tok_created_at :: int
  tok_expires_at :: "int option"
  tok_link_string :: "string option"

record link_string_doc =
  ls_id :: string
  ls_guild :: int

record fivem_link_doc =
  fl_id :: int
  fl_license :: string
  fl_steam_id :: string

text \<open>A guild of the bot's cache with the ids of the members that \<^verbatim>\<open>fetch_member\<close> finds.\<close>

record guild =
  g_id :: int
  g_members :: "int list"

text \<open>
  A member's shift document: \<^verbatim>\<open>data\<close> lists the open shifts, and an entry may be null
  (the handlers read it as \<^verbatim>\<open>(x or {}).get("guild")\<close>).
\<close>

record shift =
  sh_guild :: int
  sh_shift_type :: "json option"

record shift_doc =
  sd_id :: int
  sd_data :: "shift option list"

text \<open>
  The environment that \<^verbatim>\<open>config(...)\<close> reads. A secret that is not defined is \<open>None\<close>;
  \<^verbatim>\<open>config\<close>, called without a default, raises UndefinedValueError for it.
\<close>

record config =
  API_STATIC_TOKEN :: "string option"
  API_PRIVATE_KEY :: "string option"

record bot =
  api_tokens :: "token_doc list"
  link_strings :: "link_string_doc list"
  fivem_links :: "fivem_link_doc list"
  settings :: "dict list"
  shifts :: "shift_doc list"
  guilds :: "guild list"

subsection \<open>Collections\<close>

text \<open>
  Modelled from the spec: the document stores (the collection wrapper with
  \<^verbatim>\<open>find_by_id\<close>, \<^verbatim>\<open>upsert\<close> and \<^verbatim>\<open>update_by_id\<close>, and the database driver behind
  \<^verbatim>\<open>db.find_one\<close>, are not among the sources). A collection is the list of its documents;
  a query returns the first document it matches, \<^verbatim>\<open>find_by_id\<close> queries the \<^verbatim>\<open>_id\<close>,
  \<^verbatim>\<open>upsert\<close> persists a document under its \<^verbatim>\<open>_id\<close> (replacing the one stored there, or
  adding it), and \<^verbatim>\<open>update_by_id\<close> replaces the stored document with the same \<^verbatim>\<open>_id\<close>.
\<close>

definition find_one :: "('d \<Rightarrow> bool) \<Rightarrow> 'd list \<Rightarrow> 'd option" where
  "find_one q coll = List.find q coll"

fun replace_first :: "('d \<Rightarrow> bool) \<Rightarrow> ('d \<Rightarrow> 'd) \<Rightarrow> 'd list \<Rightarrow> 'd list" where
  "replace_first q f [] = []"
| "replace_first q f (d # ds) = (if q d then f d # ds else d # replace_first q f ds)"

definition upsert_token :: "token_doc \<Rightarrow> token_doc list \<Rightarrow> token_doc list" where
  "upsert_token obj coll =
     (case find_one (\<lambda>d. tok_id d = tok_id obj) coll of
        None \<Rightarrow> coll @ [obj]
      | Some _ \<Rightarrow> replace_first (\<lambda>d. tok_id d = tok_id obj) (\<lambda>_. obj) coll)"

definition settings_find_by_id :: "dict list \<Rightarrow> json \<Rightarrow> dict option" where
  "settings_find_by_id coll i = find_one (\<lambda>d. map_of d ''_id'' = Some i) coll"

definition settings_update_by_id :: "dict \<Rightarrow> dict list \<Rightarrow> dict list" where
  "settings_update_by_id doc coll =
     replace_first (\<lambda>d. map_of d ''_id'' = map_of doc ''_id'') (\<lambda>_. doc) coll"

text \<open>An entry of a shift document that is a shift in the given guild:
  \<^verbatim>\<open>(x or {}).get("guild") == guild.id\<close>.\<close>

definition shift_of_guild :: "int \<Rightarrow> shift option \<Rightarrow> bool" where
  "shift_of_guild gid x = (case x of None \<Rightarrow> False | Some sh \<Rightarrow> sh_guild sh = gid)"

text \<open>
  Modelled from the spec: the Shift Ledger (\<^verbatim>\<open>bot.shift_management\<close> is not among the
  sources). \<^verbatim>\<open>add_shift_by_user\<close> opens a shift record for the member, creating the
  document for a member without one. The data model keeps at most one active shift per
  (member, guild), so the record opened is the member's one open shift of that guild: it
  takes the place of an open shift the member already had there.
  \<^verbatim>\<open>remove_shift_by_user\<close> closes the given shift: it takes that entry out of the member's
  document.
\<close>

definition add_shift_by_user :: "shift_doc list \<Rightarrow> int \<Rightarrow> shift \<Rightarrow> shift_doc list" where
  "add_shift_by_user coll member sh =
     (case find_one (\<lambda>d. sd_id d = member) coll of
        None \<Rightarrow> coll @ [\<lparr>sd_id = member, sd_data = [Some sh]\<rparr>]
      | Some _ \<Rightarrow>
          replace_first (\<lambda>d. sd_id d = member)
            (\<lambda>d. d\<lparr>sd_data :=
                   filter (\<lambda>x. \<not> shift_of_guild (sh_guild sh) x) (sd_data d) @ [Some sh]\<rparr>)
            coll)"

definition remove_shift_by_user :: "shift_doc list \<Rightarrow> int \<Rightarrow> shift \<Rightarrow> shift_doc list" where
  "remove_shift_by_user coll member sh =
     replace_first (\<lambda>d. sd_id d = member) (\<lambda>d. d\<lparr>sd_data := remove1 (Some sh) (sd_data d)\<rparr>) coll"

text \<open>\<^verbatim>\<open>bot.get_guild(id)\<close> reads the guild cache; \<^verbatim>\<open>guild.fetch_member(id)\<close> returns the
  member (its id) or raises \<^verbatim>\<open>discord.NotFound\<close>, here \<open>None\<close>.\<close>

definition get_guild :: "bot \<Rightarrow> int \<Rightarrow> guild option" where
  "get_guild b gid = find_one (\<lambda>g. g_id g = gid) (guilds b)"

definition fetch_member :: "guild \<Rightarrow> int \<Rightarrow> int option" where
  "fetch_member g uid = (if uid \<in> set (g_members g) then Some uid else None)"

subsection \<open>validate_authorization\<close>

text \<open>
  \<open>now\<close> is \<^verbatim>\<open>int(datetime.datetime.now().timestamp())\<close>, read when a token document was
  found. \<open>dynamic\<close> is the part of the function after the static check. The function raises
  where \<^verbatim>\<open>config("API_STATIC_TOKEN")\<close> or \<^verbatim>\<open>token_obj["expires_at"]\<close> does.
\<close>

definition validate_authorization ::
  "config \<Rightarrow> bot \<Rightarrow> int \<Rightarrow> string \<Rightarrow> bool \<Rightarrow> error + bool" where
  "validate_authorization cfg b now token disable_static_tokens =
     (let dynamic =
            (case find_one (\<lambda>d. tok_token d = token) (api_tokens b) of
               Some token_obj \<Rightarrow>
                 (case tok_expires_at token_obj of
                    None \<Rightarrow> Inl (Unhandled KeyError)
                  | Some expires_at \<Rightarrow> (if now < expires_at then Inr True else Inr False))
             | None \<Rightarrow> Inr False)
      in if \<not> disable_static_tokens
         then
           (case API_STATIC_TOKEN cfg of
              None \<Rightarrow> Inl (Unhandled UndefinedValueError)
            | Some static_token \<Rightarrow> (if token = static_token then Inr True else dynamic))
         else dynamic)"

subsection \<open>GET_get_token\<close>

text \<open>
  \<open>host\<close> is \<^verbatim>\<open>request.client.host\<close>, \<open>generated\<close> the string \<^verbatim>\<open>tokenGenerator()\<close> returns,
  and \<open>now\<close>, \<open>now_created\<close>, \<open>now_expires\<close> the three readings of the clock, in the order the
  handler takes them. The result is the returned token object and the bot after the call.
  The handler raises where \<^verbatim>\<open>config("API_PRIVATE_KEY")\<close> or \<^verbatim>\<open>has_token["expires_at"]\<close>
  does.
\<close>

definition GET_get_token ::
  "config \<Rightarrow> bot \<Rightarrow> string option \<Rightarrow> string \<Rightarrow> string \<Rightarrow> int \<Rightarrow> int \<Rightarrow> int
     \<Rightarrow> error + (token_doc \<times> bot)" where
  "GET_get_token cfg b authorization host generated now now_created now_expires =
     (case API_PRIVATE_KEY cfg of
        None \<Rightarrow> Inl (Unhandled UndefinedValueError)
      | Some private_key \<Rightarrow>
          if authorization \<noteq> Some private_key
          then Inl (HTTPException 401 ''Invalid authorization'')
          else
            (let has_token = find_one (\<lambda>d. tok_id d = host) (api_tokens b);
                 object = \<lparr>tok_id = host, tok_token = generated, tok_created_at = now_created,
                           tok_expires_at = Some (now_expires + 2592000),
                           tok_link_string = None\<rparr>;
                 fresh = Inr (object, b\<lparr>api_tokens := upsert_token object (api_tokens b)\<rparr>)
             in case has_token of
                  Some t \<Rightarrow>
                    (case tok_expires_at t of
                       None \<Rightarrow> Inl (Unhandled KeyError)
                     | Some expires_at \<Rightarrow> (if \<not> now > expires_at then Inr (t, b) else fresh))
                | None \<Rightarrow> fresh))"

subsection \<open>The token and link-string checks shared by the handlers\<close>

text \<open>
  The opening of \<^verbatim>\<open>POST_get_discord\<close>, \<^verbatim>\<open>POST_get_fivem\<close> and \<^verbatim>\<open>POST_duty_on\<close> is the same
  text: the header must be non-empty, its token document must exist and not be past its
  expiry, and the link string the token names must exist. \<^verbatim>\<open>token_obj["expires_at"]\<close>
  and \<^verbatim>\<open>token_obj["link_string"]\<close> raise KeyError for a document without the field, as a
  token that was never linked is.
\<close>

definition token_link_string :: "bot \<Rightarrow> string option \<Rightarrow> int \<Rightarrow> error + link_string_doc" where
  "token_link_string b authorization now =
     (case authorization of
        None \<Rightarrow> Inl (HTTPException 401 ''Invalid authorization'')
      | Some a \<Rightarrow>
          if a = [] then Inl (HTTPException 401 ''Invalid authorization'')
          else
            (case find_one (\<lambda>d. tok_token d = a) (api_tokens b) of
               None \<Rightarrow> Inl (HTTPException 401 ''Invalid authorization'')
             | Some token_obj \<Rightarrow>
                 (case tok_expires_at token_obj of
                    None \<Rightarrow> Inl (Unhandled KeyError)
                  | Some expires_at \<Rightarrow>
                      if now > expires_at
                      then Inl (HTTPException 401 ''Invalid authorization'')
                      else
                        (case tok_link_string token_obj of
                           None \<Rightarrow> Inl (Unhandled KeyError)
                         | Some ls \<Rightarrow>
                             (case find_one (\<lambda>d. ls_id d = ls) (link_strings b) of
                                None \<Rightarrow> Inl (HTTPException 401 ''Invalid link string'')
                              | Some link_string_obj \<Rightarrow> Inr link_string_obj)))))"

subsection \<open>POST_get_discord and POST_get_fivem\<close>

text \<open>The request body of \<^verbatim>\<open>POST_get_discord\<close>, already validated against \<^verbatim>\<open>Identification\<close>.\<close>

record identification =
  id_license :: json
  id_discord :: json
  id_source :: string

text \<open>
  \<^verbatim>\<open>{"status": "success"}.update(fivem_link)\<close> updates the dict in place and evaluates to
  \<^verbatim>\<open>None\<close>, which is the response \<open>JNull\<close>.
\<close>

definition link_response :: "fivem_link_doc option \<Rightarrow> json" where
  "link_response fivem_link =
     (case fivem_link of
        Some _ \<Rightarrow> JNull
      | None \<Rightarrow> JObj [(''status'', JStr ''failed'')])"

definition POST_get_discord :: "bot \<Rightarrow> string option \<Rightarrow> identification \<Rightarrow> int \<Rightarrow> error + json"
  where
  "POST_get_discord b authorization body now =
     (case token_link_string b authorization now of
        Inl e \<Rightarrow> Inl e
      | Inr link_string_obj \<Rightarrow>
          if \<not> truthy (id_license body) then Inl (HTTPException 400 ''Missing license'')
          else Inr (link_response
                 (find_one (\<lambda>d. JStr (fl_license d) = id_license body) (fivem_links b))))"

definition POST_get_fivem :: "bot \<Rightarrow> string option \<Rightarrow> json \<Rightarrow> int \<Rightarrow> error + json" where
  "POST_get_fivem b authorization body now =
     (case token_link_string b authorization now of
        Inl e \<Rightarrow> Inl e
      | Inr link_string_obj \<Rightarrow>
          if \<not> truthy body then Inl (HTTPException 400 ''Missing discord_id'')
          else
            (case py_get body ''discord_id'' of
               Inl e \<Rightarrow> Inl (Unhandled e)
             | Inr discord_id \<Rightarrow>
                 if \<not> truthy discord_id then Inl (HTTPException 400 ''Missing discord_id'')
                 else Inr (link_response
                        (find_one (\<lambda>d. JInt (fl_id d) = discord_id) (fivem_links b)))))"

subsection \<open>POST_duty_on\<close>

text \<open>Token, link string and guild (the handler's first checks).\<close>

definition duty_on_guild :: "bot \<Rightarrow> string option \<Rightarrow> int \<Rightarrow> error + guild" where
  "duty_on_guild b authorization now =
     (case token_link_string b authorization now of
        Inl e \<Rightarrow> Inl e
      | Inr link_string_obj \<Rightarrow>
          (case get_guild b (ls_guild link_string_obj) of
             None \<Rightarrow> Inl (HTTPException 404 ''Guild not found'')
           | Some g \<Rightarrow> Inr g))"

text \<open>The FiveM link of the body's \<^verbatim>\<open>steam_id\<close>; both duty handlers have this text.\<close>

definition steam_fivem_link :: "bot \<Rightarrow> json \<Rightarrow> error + fivem_link_doc" where
  "steam_fivem_link b body =
     (case py_get body ''steam_id'' of
        Inl e \<Rightarrow> Inl (Unhandled e)
      | Inr steam_id \<Rightarrow>
          if \<not> truthy steam_id then Inl (HTTPException 400 ''No steam ID provided'')
          else
            (case find_one (\<lambda>d. JStr (fl_steam_id d) = steam_id) (fivem_links b) of
               None \<Rightarrow> Inl (HTTPException 404 ''Could not find FiveM link'')
             | Some fivem_link \<Rightarrow>
                 if fl_id fivem_link = 0
                 then Inl (HTTPException 404 ''Could not find FiveM link'')
                 else Inr fivem_link))"

definition member_of_link :: "guild \<Rightarrow> fivem_link_doc \<Rightarrow> error + int" where
  "member_of_link g fivem_link =
     (case fetch_member g (fl_id fivem_link) of
        None \<Rightarrow> Inl (HTTPException 404 ''Could not find Discord member'')
      | Some member \<Rightarrow> Inr member)"

text \<open>
  The local \<^verbatim>\<open>available_shift_types\<close> is assigned only when the settings hold a truthy
  \<^verbatim>\<open>shift_types\<close>; \<open>None\<close> is the unassigned variable.
\<close>

fun collect_ids :: "json list \<Rightarrow> py_exception + json list" where
  "collect_ids [] = Inr []"
| "collect_ids (shift_type # rest) =
     (case py_item shift_type ''id'' of
        Inl e \<Rightarrow> Inl e
      | Inr i \<Rightarrow> (case collect_ids rest of Inl e \<Rightarrow> Inl e | Inr ids \<Rightarrow> Inr (i # ids)))"

definition available_shift_types :: "dict \<Rightarrow> error + json list option" where
  "available_shift_types st =
     (case map_of st ''shift_types'' of
        None \<Rightarrow> Inr None
      | Some v \<Rightarrow>
          if \<not> truthy v then Inr None
          else
            (case py_iter v of
               Inl e \<Rightarrow> Inl (Unhandled e)
             | Inr shift_types \<Rightarrow>
                 (case collect_ids shift_types of
                    Inl e \<Rightarrow> Inl (Unhandled e)
                  | Inr ids \<Rightarrow> Inr (Some ids))))"

text \<open>Opening the shift; the result is the body's \<^verbatim>\<open>shift_type\<close> and the ledger afterwards.\<close>

definition duty_on_open ::
  "bot \<Rightarrow> int \<Rightarrow> guild \<Rightarrow> json \<Rightarrow> json list option \<Rightarrow> error + (json \<times> shift_doc list)" where
  "duty_on_open b member g body available =
     (case py_get body ''shift_type'' of
        Inl e \<Rightarrow> Inl (Unhandled e)
      | Inr shift_type \<Rightarrow>
          if \<not> truthy shift_type
          then Inr (shift_type,
                 add_shift_by_user (shifts b) member \<lparr>sh_guild = g_id g, sh_shift_type = None\<rparr>)
          else
            (case available of
               None \<Rightarrow> Inl (Unhandled UnboundLocalError)
             | Some ids \<Rightarrow>
                 if \<not> py_in shift_type ids
                 then Inl (HTTPException 400 ''Invalid shift type'')
                 else Inr (shift_type,
                        add_shift_by_user (shifts b) member
                          \<lparr>sh_guild = g_id g, sh_shift_type = Some shift_type\<rparr>)))"

definition POST_duty_on :: "bot \<Rightarrow> string option \<Rightarrow> json \<Rightarrow> int \<Rightarrow> error + (json \<times> bot)" where
  "POST_duty_on b authorization body now =
     (case duty_on_guild b authorization now of
        Inl e \<Rightarrow> Inl e
      | Inr g \<Rightarrow>
          if \<not> truthy body then Inl (HTTPException 400 ''No body provided'')
          else
            (case steam_fivem_link b body of
               Inl e \<Rightarrow> Inl e
             | Inr fivem_link \<Rightarrow>
                 (case member_of_link g fivem_link of
                    Inl e \<Rightarrow> Inl e
                  | Inr member \<Rightarrow>
                      (case settings_find_by_id (settings b) (JInt (g_id g)) of
                         None \<Rightarrow> Inl (HTTPException 404 ''Could not find settings'')
                       | Some st \<Rightarrow>
                           (case available_shift_types st of
                              Inl e \<Rightarrow> Inl e
                            | Inr available \<Rightarrow>
                                (case duty_on_open b member g body available of
                                   Inl e \<Rightarrow> Inl e
                                 | Inr (shift_type, ledger) \<Rightarrow>
                                     Inr (JObj [(''status'', JStr ''success''),
                                                (''member'', JInt member),
                                                (''shift_type'', shift_type)],
                                          b\<lparr>shifts := ledger\<rparr>)))))))"

subsection \<open>POST_duty_off\<close>

text \<open>
  The local \<^verbatim>\<open>guild\<close> holds a cached guild (or \<^verbatim>\<open>None\<close>) on the token path and the raw
  \<^verbatim>\<open>data['guild']\<close> of the body otherwise.
\<close>

datatype guild_value = Guild guild | Raw json

fun guild_truthy :: "guild_value \<Rightarrow> bool" where
  "guild_truthy (Guild g) = True"
| "guild_truthy (Raw v) = truthy v"

definition duty_off_guild :: "bot \<Rightarrow> token_doc option \<Rightarrow> json \<Rightarrow> error + guild_value" where
  "duty_off_guild b token_obj body =
     (case token_obj of
        Some t \<Rightarrow>
          (case tok_link_string t of
             None \<Rightarrow> Inl (Unhandled KeyError)
           | Some ls \<Rightarrow>
               (case find_one (\<lambda>d. ls_id d = ls) (link_strings b) of
                  None \<Rightarrow> Inl (HTTPException 401 ''Invalid link string'')
                | Some link_string_obj \<Rightarrow>
                    (case get_guild b (ls_guild link_string_obj) of
                       None \<Rightarrow> Inr (Raw JNull)
                     | Some g \<Rightarrow> Inr (Guild g))))
      | None \<Rightarrow>
          (case py_item body ''guild'' of
             Inl e \<Rightarrow> Inl (Unhandled e)
           | Inr v \<Rightarrow> Inr (Raw v)))"

text \<open>The local \<^verbatim>\<open>fivem_link\<close> is assigned on the token path only; \<open>None\<close> is the
  unassigned variable.\<close>

definition duty_off_fivem_link ::
  "bot \<Rightarrow> token_doc option \<Rightarrow> json \<Rightarrow> error + fivem_link_doc option" where
  "duty_off_fivem_link b token_obj body =
     (case token_obj of
        Some _ \<Rightarrow> (case steam_fivem_link b body of Inl e \<Rightarrow> Inl e | Inr l \<Rightarrow> Inr (Some l))
      | None \<Rightarrow> Inr None)"

text \<open>
  \<^verbatim>\<open>guild.fetch_member(fivem_link["_id"])\<close>: the attribute is looked up before the argument
  is evaluated, and no JSON value has a \<^verbatim>\<open>fetch_member\<close>.
\<close>

definition duty_off_member :: "guild_value \<Rightarrow> fivem_link_doc option \<Rightarrow> error + (guild \<times> int)"
  where
  "duty_off_member gv fivem_link =
     (case gv of
        Raw _ \<Rightarrow> Inl (Unhandled AttributeError)
      | Guild g \<Rightarrow>
          (case fivem_link of
             None \<Rightarrow> Inl (Unhandled UnboundLocalError)
           | Some l \<Rightarrow>
               (case member_of_link g l of Inl e \<Rightarrow> Inl e | Inr member \<Rightarrow> Inr (g, member))))"

text \<open>
  Settings, the member's shift document, and the first of its entries for the guild. The
  filter keeps no null entry, so the head it yields is always a shift.
\<close>

definition duty_off_close :: "bot \<Rightarrow> guild \<Rightarrow> int \<Rightarrow> error + bot" where
  "duty_off_close b g member =
     (case settings_find_by_id (settings b) (JInt (g_id g)) of
        None \<Rightarrow> Inl (HTTPException 404 ''Could not find settings'')
      | Some st \<Rightarrow>
          (case find_one (\<lambda>d. sd_id d = member) (shifts b) of
             None \<Rightarrow> Inl (HTTPException 404 ''Could not find user shifts'')
           | Some shifts_doc \<Rightarrow>
               (case filter (shift_of_guild (g_id g)) (sd_data shifts_doc) of
                  [] \<Rightarrow> Inl (HTTPException 404 ''Could not find user shifts'')
                | associated_shift # _ \<Rightarrow>
                    (case associated_shift of
                       None \<Rightarrow> Inl (Unhandled TypeError)
                     | Some sh \<Rightarrow>
                         Inr (b\<lparr>shifts := remove_shift_by_user (shifts b) member sh\<rparr>)))))"

text \<open>The handler has no \<^verbatim>\<open>return\<close>: on success the response is \<^verbatim>\<open>None\<close>.\<close>

definition POST_duty_off ::
  "config \<Rightarrow> bot \<Rightarrow> string option \<Rightarrow> json \<Rightarrow> int \<Rightarrow> error + (json \<times> bot)" where
  "POST_duty_off cfg b authorization body now =
     (case authorization of
        None \<Rightarrow> Inl (HTTPException 401 ''Invalid authorization'')
      | Some a \<Rightarrow>
          if a = [] then Inl (HTTPException 401 ''Invalid authorization'')
          else
            (case validate_authorization cfg b now a False of
               Inl e \<Rightarrow> Inl e
             | Inr valid \<Rightarrow>
                 if \<not> valid then Inl (HTTPException 401 ''Invalid or expired authorization.'')
                 else
                   (let token_obj = find_one (\<lambda>d. tok_token d = a) (api_tokens b)
                    in case duty_off_guild b token_obj body of
                         Inl e \<Rightarrow> Inl e
                       | Inr gv \<Rightarrow>
                           if \<not> guild_truthy gv then Inl (HTTPException 404 ''Guild not found'')
                           else if \<not> truthy body
                           then Inl (HTTPException 400 ''No body provided'')
                           else
                             (case duty_off_fivem_link b token_obj body of
                                Inl e \<Rightarrow> Inl e
                              | Inr fivem_link \<Rightarrow>
                                  (case duty_off_member gv fivem_link of
                                     Inl e \<Rightarrow> Inl e
                                   | Inr (g, member) \<Rightarrow>
                                       (case duty_off_close b g member of
                                          Inl e \<Rightarrow> Inl e
                                        | Inr b' \<Rightarrow> Inr (JNull, b')))))))"

subsection \<open>POST_update_guild_settings\<close>

text \<open>
  Several handlers return an \<^verbatim>\<open>HTTPException\<close> object instead of raising it; a response is
  then a JSON body or such a returned object.
\<close>

datatype response = Body json | Returned_HTTPException nat string

text \<open>\<^verbatim>\<open>for k, v in value.items(): settings[key][k] = v\<close>\<close>

fun merge_items :: "dict \<Rightarrow> string \<Rightarrow> (string \<times> json) list \<Rightarrow> py_exception + dict" where
  "merge_items st key [] = Inr st"
| "merge_items st key ((k, v) # rest) =
     (case map_of st key of
        None \<Rightarrow> Inl KeyError
      | Some (JObj inner) \<Rightarrow> merge_items (dict_set st key (JObj (dict_set inner k v))) key rest
      | Some _ \<Rightarrow> Inl TypeError)"

text \<open>
  The loop over the body's items. \<open>cur\<close> is the local \<^verbatim>\<open>settings\<close>, \<open>None\<close> while it is
  unassigned. The loop ends early with the returned 400, with an exception, or runs through
  and leaves the variable.
\<close>

fun settings_loop ::
  "bot \<Rightarrow> json \<Rightarrow> (string \<times> json) list \<Rightarrow> dict option \<Rightarrow> error + (response + dict option)" where
  "settings_loop b guild_id [] cur = Inr (Inr cur)"
| "settings_loop b guild_id ((key, val) # rest) cur =
     (if key = ''guild'' then settings_loop b guild_id rest cur
      else
        (case val of
           JObj items \<Rightarrow>
             (case settings_find_by_id (settings b) guild_id of
                None \<Rightarrow> Inr (Inl (Returned_HTTPException 400 ''Invalid guild''))
              | Some st \<Rightarrow>
                  (case merge_items st key items of
                     Inl e \<Rightarrow> Inl (Unhandled e)
                   | Inr st' \<Rightarrow> settings_loop b guild_id rest (Some st')))
         | _ \<Rightarrow> settings_loop b guild_id rest cur))"

text \<open>
  \<open>py_int\<close> is Python's \<^verbatim>\<open>int(...)\<close> on a JSON value, with the exception it raises for a
  value it cannot convert.
\<close>

definition POST_update_guild_settings ::
  "(json \<Rightarrow> py_exception + int) \<Rightarrow> bot \<Rightarrow> json \<Rightarrow> error + (response \<times> bot)" where
  "POST_update_guild_settings py_int b json_data =
     (case py_get json_data ''guild'' of
        Inl e \<Rightarrow> Inl (Unhandled e)
      | Inr guild_id \<Rightarrow>
          (case settings_loop b guild_id (case json_data of JObj items \<Rightarrow> items | _ \<Rightarrow> []) None of
             Inl e \<Rightarrow> Inl e
           | Inr (Inl r) \<Rightarrow> Inr (r, b)
           | Inr (Inr cur) \<Rightarrow>
               (case cur of
                  None \<Rightarrow> Inl (Unhandled UnboundLocalError)
                | Some st \<Rightarrow>
                    (let b' = b\<lparr>settings := settings_update_by_id st (settings b)\<rparr>
                     in if \<not> truthy guild_id
                        then Inr (Returned_HTTPException 400 ''Invalid guild'', b')
                        else
                          (case py_int guild_id of
                             Inl e \<Rightarrow> Inl (Unhandled e)
                           | Inr n \<Rightarrow>
                               (case get_guild b' n of
                                  None \<Rightarrow> Inl (Unhandled AttributeError)
                                | Some g \<Rightarrow>
                                    (case settings_find_by_id (settings b') (JInt (g_id g)) of
                                       None \<Rightarrow>
                                         Inr (Returned_HTTPException 404
                                                ''Guild does not have settings attribute'', b')
                                     | Some st' \<Rightarrow> Inr (Body (JObj st'), b'))))))))"

subsection \<open>Vocabulary of the statements\<close>

text \<open>The open shifts of a member in a guild, as \<^verbatim>\<open>POST_duty_off\<close> looks them up.\<close>

definition open_shifts :: "bot \<Rightarrow> int \<Rightarrow> int \<Rightarrow> shift option list" where
  "open_shifts b member gid =
     (case find_one (\<lambda>d. sd_id d = member) (shifts b) of
        None \<Rightarrow> []
      | Some doc \<Rightarrow> filter (shift_of_guild gid) (sd_data doc))"

text \<open>The guild a token resolves to through its link string, and the member a body's
  \<^verbatim>\<open>steam_id\<close> resolves to through its FiveM link.\<close>

definition request_guild :: "bot \<Rightarrow> string option \<Rightarrow> int option" where
  "request_guild b authorization =
     (case authorization of
        None \<Rightarrow> None
      | Some a \<Rightarrow>
          (case find_one (\<lambda>d. tok_token d = a) (api_tokens b) of
             None \<Rightarrow> None
           | Some token_obj \<Rightarrow>
               (case tok_link_string token_obj of
                  None \<Rightarrow> None
                | Some ls \<Rightarrow>
                    (case find_one (\<lambda>d. ls_id d = ls) (link_strings b) of
                       None \<Rightarrow> None
                     | Some link_string_obj \<Rightarrow>
                         map_option g_id (get_guild b (ls_guild link_string_obj))))))"

definition request_member :: "bot \<Rightarrow> json \<Rightarrow> int option" where
  "request_member b body =
     (case py_get body ''steam_id'' of
        Inl _ \<Rightarrow> None
      | Inr steam_id \<Rightarrow>
          map_option fl_id (find_one (\<lambda>d. JStr (fl_steam_id d) = steam_id) (fivem_links b)))"

subsection \<open>A small deployment\<close>

text \<open>
  One token issued to one client and linked to guild 1, one linked player who is a member
  of the guild, and settings with one shift type. The concrete instances below run on it.
\<close>

definition ex_cfg :: config where
  "ex_cfg = \<lparr>API_STATIC_TOKEN = Some ''static'', API_PRIVATE_KEY = Some ''private''\<rparr>"

definition ex_token :: token_doc where
  "ex_token = \<lparr>tok_id = ''10.0.0.1'', tok_token = ''tok'', tok_created_at = 0,
                tok_expires_at = Some 100, tok_link_string = Some ''ls1''\<rparr>"

definition ex_bot :: bot where
  "ex_bot =
     \<lparr>api_tokens = [ex_token],
      link_strings = [\<lparr>ls_id = ''ls1'', ls_guild = 1\<rparr>],
      fivem_links = [\<lparr>fl_id = 7, fl_license = ''lic'', fl_steam_id = ''steam7''\<rparr>],
      settings = [[(''_id'', JInt 1), (''shift_types'', JArr [JObj [(''id'', JInt 5)]])]],
      shifts = [],
      guilds = [\<lparr>g_id = 1, g_members = [7]\<rparr>]\<rparr>"

text \<open>\<^verbatim>\<open>int(...)\<close> on the JSON integers, and the deployment with the member on duty.\<close>

definition ex_int :: "json \<Rightarrow> py_exception + int" where
  "ex_int v = (case v of JInt n \<Rightarrow> Inr n | _ \<Rightarrow> Inl TypeError)"

definition ex_busy_bot :: bot where
  "ex_busy_bot =
     ex_bot\<lparr>shifts := [\<lparr>sd_id = 7,
                          sd_data = [Some \<lparr>sh_guild = 1, sh_shift_type = Some (JInt 5)\<rparr>]\<rparr>]\<rparr>"


section \<open>Properties of the paginator\<close>

lemma page_update_buttons: "page (update_buttons p) = page p"
  by (simp add: update_buttons_def)

lemma pages_update_buttons: "pages (update_buttons p) = pages p"
  by (simp add: update_buttons_def)

lemma page_press_button:
  "page (press_button p b) =
     (case b of Back \<Rightarrow> max (page p - 1) 1 | Next \<Rightarrow> min (page p + 1) (pages p))"
  by (cases b) (simp_all add: prev_button_def next_button_def Let_def page_update_buttons)

lemma pages_press_button: "pages (press_button p b) = pages p"
  by (cases b) (simp_all add: prev_button_def next_button_def Let_def pages_update_buttons)

lemma pages_press_all: "pages (press_all p bs) = pages p"
  unfolding press_all_def
  by (induction bs arbitrary: p) (simp_all add: pages_press_button)

lemma press_button_bounds:
  assumes "1 \<le> pages p" and "1 \<le> page p" and "page p \<le> pages p"
  shows "1 \<le> page (press_button p b) \<and> page (press_button p b) \<le> pages p"
  using assms
  by (cases b) (simp_all add: prev_button_def next_button_def Let_def page_update_buttons)

lemma press_all_bounds:
  assumes "1 \<le> pages p" and "1 \<le> page p" and "page p \<le> pages p"
  shows "1 \<le> page (press_all p bs) \<and> page (press_all p bs) \<le> pages p"
  using assms unfolding press_all_def
proof (induction bs arbitrary: p)
  case Nil
  then show ?case by simp
next
  case (Cons b bs)
  have step: "1 \<le> page (press_button p b) \<and> page (press_button p b) \<le> pages p"
    using Cons.prems by (rule press_button_bounds)
  have "1 \<le> page (foldl press_button (press_button p b) bs) \<and>
        page (foldl press_button (press_button p b) bs) \<le> pages (press_button p b)"
    using Cons.prems step by (intro Cons.IH) (simp_all add: pages_press_button)
  then show ?case by (simp add: pages_press_button)
qed

text \<open>
  C6, as stated, for every page count: with \<open>pages = 0\<close> (what \<open>StaticPaginator\<close> computes for
  an empty list of lines) one press of "Next" moves the cursor from 1 to 0, below the
  lower bound.
\<close>

theorem paginator_cursor_counterexample:
  "\<not> (1 \<le> page (press_all (Paginator_init (\<lambda>n. n) 0) [Next]) \<and>
      page (press_all (Paginator_init (\<lambda>n. n) 0) [Next])
        \<le> pages (press_all (Paginator_init (\<lambda>n. n) 0) [Next]))"
  by (simp add: press_all_def Paginator_init_def next_button_def update_buttons_def)

text \<open>
  C6, amended: for a paginator with at least one page, the cursor starts at 1, "previous"
  sets it to \<open>max (page - 1) 1\<close>, "next" sets it to \<open>min (page + 1) pages\<close>, and after
  any finite sequence of presses it lies in \<open>[1, pages]\<close>; the page count never changes.
\<close>

theorem paginator_cursor_in_bounds:
  assumes "1 \<le> pgs"
  shows "page (Paginator_init cb pgs) = 1
       \<and> (\<forall>p :: 'e paginator. page (fst (prev_button p)) = max (page p - 1) 1)
       \<and> (\<forall>p :: 'e paginator. page (fst (next_button p)) = min (page p + 1) (pages p))
       \<and> pages (press_all (Paginator_init cb pgs) bs) = pgs
       \<and> 1 \<le> page (press_all (Paginator_init cb pgs) bs)
       \<and> page (press_all (Paginator_init cb pgs) bs) \<le> pgs"
proof -
  let ?p = "Paginator_init cb pgs"
  have p1: "page ?p = 1" and pp: "pages ?p = pgs"
    by (simp_all add: Paginator_init_def update_buttons_def)
  have "1 \<le> page (press_all ?p bs) \<and> page (press_all ?p bs) \<le> pages ?p"
    by (rule press_all_bounds) (simp_all add: p1 pp assms)
  moreover have "\<forall>p :: 'e paginator. page (fst (prev_button p)) = max (page p - 1) 1"
    by (simp add: prev_button_def Let_def page_update_buttons)
  moreover have "\<forall>p :: 'e paginator. page (fst (next_button p)) = min (page p + 1) (pages p)"
    by (simp add: next_button_def Let_def page_update_buttons)
  ultimately show ?thesis
    by (simp add: p1 pp pages_press_all)
qed

theorem paginator_cursor_in_bounds_witness:
  "(1::int) \<le> 2
   \<and> page (press_all (Paginator_init (\<lambda>n. n) 2) [Next, Next, Next, Back, Back, Back, Next]) = 2
   \<and> 1 \<le> page (press_all (Paginator_init (\<lambda>n. n) 2) [Next, Next, Next])
   \<and> page (press_all (Paginator_init (\<lambda>n. n) 2) [Next, Next, Next]) \<le> 2"
proof -
  have h: "(1::int) \<le> 2" by simp
  have "page (press_all (Paginator_init (\<lambda>n. n) 2) [Next, Next, Next, Back, Back, Back, Next]) = 2"
    by (simp add: press_all_def Paginator_init_def next_button_def prev_button_def
        update_buttons_def)
  then show ?thesis
    using h paginator_cursor_in_bounds [OF h, of "\<lambda>n. n" "[Next, Next, Next]"] by blast
qed

lemma ceil_div: "0 < (d::int) \<Longrightarrow> \<lceil>(of_nat n :: rat) / of_int d\<rceil> = - ((- int n) div d)"
  by (metis ceiling_divide_eq_div of_int_of_nat_eq)

lemma ceil_bounds:
  assumes "0 < (d::int)"
  shows "(\<lceil>(of_nat n :: rat) / of_int d\<rceil> - 1) * d < int n \<and> int n \<le> \<lceil>(of_nat n :: rat) / of_int d\<rceil> * d"
proof -
  define q where "q = (- int n) div d"
  define r where "r = (- int n) mod d"
  have e: "- int n = q * d + r" unfolding q_def r_def by simp
  have r: "0 \<le> r" "r < d" unfolding r_def using assms by simp_all
  have c: "\<lceil>(of_nat n :: rat) / of_int d\<rceil> = - q"
    unfolding q_def using assms by (rule ceil_div)
  have "(- q - 1) * d < int n" using e r by (simp add: algebra_simps)
  moreover have "int n \<le> - q * d" using e r by (simp add: algebra_simps)
  ultimately show ?thesis unfolding c by simp
qed

lemma take_drop_clamp:
  "take (min b (length xs) - min a (length xs)) (drop (min a (length xs)) xs)
     = take (b - a) (drop a xs)"
  by (auto simp: min_def)

lemma py_slice_page:
  assumes "0 < ll" "1 \<le> N"
  shows "py_slice xs ((N - 1) * ll) (N * ll) = take (nat ll) (drop (nat ((N - 1) * ll)) xs)"
proof -
  have m: "0 \<le> (N - 1) * ll" using assms by simp
  have n: "0 \<le> N * ll" using assms by simp
  have d: "nat (N * ll) - nat ((N - 1) * ll) = nat ll"
    using assms m by (simp add: algebra_simps nat_diff_distrib [symmetric])
  have "py_slice xs ((N - 1) * ll) (N * ll)
          = take (nat (N * ll) - nat ((N - 1) * ll)) (drop (nat ((N - 1) * ll)) xs)"
    using m n by (simp add: py_slice_def slice_index_def Let_def take_drop_clamp)
  then show ?thesis by (simp only: d)
qed


subsection \<open>The float quotient\<close>

lemma bit_length_bounds:
  "0 < n \<Longrightarrow> 1 \<le> bit_length n \<and> 2 ^ nat (bit_length n - 1) \<le> n \<and> n < 2 ^ nat (bit_length n)"
proof (induction n rule: bit_length.induct)
  case (1 n)
  show ?case
  proof (cases "n div 2 = 0")
    case True
    then have n1: "n = 1" using "1.prems" by presburger
    have "bit_length 1 = 1"
      by (subst bit_length.simps, subst bit_length.simps) simp
    then show ?thesis using n1 by simp
  next
    case False
    then have pos: "0 < n div 2" using "1.prems" by presburger
    let ?m = "n div 2"
    have ih: "1 \<le> bit_length ?m" "2 ^ nat (bit_length ?m - 1) \<le> ?m" "?m < 2 ^ nat (bit_length ?m)"
      using "1.IH" [OF _ pos] "1.prems" by simp_all
    have bn: "bit_length n = 1 + bit_length ?m"
      using "1.prems" by (subst bit_length.simps) simp
    have e1: "nat (bit_length n - 1) = Suc (nat (bit_length ?m - 1))"
      using ih(1) bn by simp
    have e2: "nat (bit_length n) = Suc (nat (bit_length ?m))"
      using ih(1) bn by simp
    define b where "b = nat (bit_length ?m - 1)"
    have e3: "nat (bit_length ?m) = Suc b" using ih(1) by (simp add: b_def)
    have e4: "nat (bit_length n - 1) = Suc b" using e1 by (simp add: b_def)
    have e5: "nat (bit_length n) = Suc (Suc b)" using e2 e3 by simp
    have i1: "(2::int) ^ b \<le> ?m" using ih(2) by (simp add: b_def)
    have i2: "?m < 2 * 2 ^ b" using ih(3) by (simp add: e3)
    have m: "2 * ?m \<le> n" "n < 2 * ?m + 2" by presburger+
    have "2 * 2 ^ b \<le> n" using i1 m(1) by linarith
    then have g1: "2 ^ nat (bit_length n - 1) \<le> n" unfolding e4 by simp
    have "n < 2 * (2 * 2 ^ b)" using i2 m(2) by linarith
    then have g2: "n < 2 ^ nat (bit_length n)" unfolding e5 by simp
    have g0: "1 \<le> bit_length n" using ih(1) bn by linarith
    show ?thesis using g0 g1 g2 by blast
  qed
qed

lemma bit_length_rat_bounds:
  assumes "0 < n"
  shows "(2::rat) powi (bit_length n - 1) \<le> of_int n" and "of_int n < (2::rat) powi (bit_length n)"
proof -
  note b = bit_length_bounds [OF assms]
  have "(of_int (2 ^ nat (bit_length n - 1)) :: rat) \<le> of_int n"
    using b by (simp only: of_int_le_iff)
  then show "(2::rat) powi (bit_length n - 1) \<le> of_int n"
    using b by (simp add: power_int_def)
  have "(of_int n :: rat) < of_int (2 ^ nat (bit_length n))"
    using b by (simp only: of_int_less_iff)
  then show "of_int n < (2::rat) powi (bit_length n)"
    using b by (simp add: power_int_def)
qed

lemma floor_log2_bounds:
  assumes "0 < q"
  shows "2 powi (floor_log2 q) \<le> q" and "q < 2 powi (floor_log2 q + 1)"
proof -
  obtain n d where nd: "quotient_of q = (n, d)" by (cases "quotient_of q")
  have d: "0 < d" using quotient_of_denom_pos [OF nd] .
  have q: "q = of_int n / of_int d" using quotient_of_div [OF nd] .
  have n: "0 < n" using assms d q by (simp add: zero_less_divide_iff)
  let ?k = "bit_length n - bit_length d"
  have dr: "(0::rat) < of_int d" using d by simp
  have up: "q < 2 powi (?k + 1)"
  proof -
    have "of_int n < (2::rat) powi (bit_length n)" using bit_length_rat_bounds(2) [OF n] .
    also have "\<dots> = 2 powi (?k + 1) * 2 powi (bit_length d - 1)"
      by (simp add: power_int_add [symmetric])
    also have "\<dots> \<le> 2 powi (?k + 1) * of_int d"
      using bit_length_rat_bounds(1) [OF d] by (intro mult_left_mono) simp_all
    finally show ?thesis using dr by (simp add: q pos_divide_less_eq)
  qed
  have lo: "2 powi (?k - 1) < q"
  proof -
    have "2 powi (?k - 1) * of_int d < (2::rat) powi (?k - 1) * 2 powi (bit_length d)"
      using bit_length_rat_bounds(2) [OF d] by (intro mult_strict_left_mono) simp_all
    also have "\<dots> = 2 powi (bit_length n - 1)"
      by (simp add: power_int_add [symmetric])
    also have "\<dots> \<le> of_int n" using bit_length_rat_bounds(1) [OF n] .
    finally show ?thesis using dr by (simp add: q pos_less_divide_eq)
  qed
  have fl: "floor_log2 q = (if 2 powi ?k \<le> q then ?k else ?k - 1)"
    by (simp add: floor_log2_def nd Let_def)
  show "2 powi (floor_log2 q) \<le> q" using lo by (simp add: fl)
  show "q < 2 powi (floor_log2 q + 1)" using up by (simp add: fl)
qed

lemma round_half_even_lower: "x - 1 / 2 \<le> of_int (round_half_even x)"
proof -
  have f: "of_int \<lfloor>x\<rfloor> \<le> x" "x < of_int \<lfloor>x\<rfloor> + 1" by linarith+
  show ?thesis
    using f by (auto simp: round_half_even_def Let_def)
qed

lemma round_half_even_le_ceiling: "round_half_even x \<le> \<lceil>x\<rceil>"
proof -
  have c: "\<lfloor>x\<rfloor> \<le> \<lceil>x\<rceil>" by linarith
  have "\<lfloor>x\<rfloor> + 1 \<le> \<lceil>x\<rceil>" if "(0::rat) < x - of_int \<lfloor>x\<rfloor>"
    using that by linarith
  then show ?thesis
    using c by (auto simp: round_half_even_def Let_def)
qed

declare power_numeral [simp del]

lemma powi_le_imp_le:
  assumes "(2::rat) powi a < 2 powi b"
  shows "a < b"
proof (rule ccontr)
  assume "\<not> a < b"
  then have "b \<le> a" by simp
  then have "(2::rat) powi b \<le> 2 powi a" by (intro power_int_increasing) simp_all
  with assms show False by simp
qed

lemma powi_split: "(2::rat) powi (a + b) = 2 powi a * 2 powi b"
  by (rule power_int_add) simp

lemma double_round_value:
  assumes "0 < q" and "e = max (floor_log2 q) (- 1022)"
    and "v = of_int (round_half_even (q / 2 powi (e - 52))) * 2 powi (e - 52)"
    and "v < 2 powi 1024"
  shows "double_round q = Inr v"
proof -
  have a: "\<bar>q\<bar> = q" and s: "sgn q = 1" and z: "q \<noteq> 0" using assms(1) by simp_all
  have "\<not> 2 powi 1024 \<le> v" using assms(4) by simp
  then show ?thesis
    unfolding double_round_def Let_def a s assms(2) [symmetric] assms(3) [symmetric]
    using z by simp
qed

lemma double_round_small:
  assumes q: "0 < q" and small: "q < 2 powi (- 1075)"
  shows "double_round q = Inr 0"
proof -
  define Q where "Q = (2::rat) powi (- 1074)"
  have Qpos: "0 < Q" unfolding Q_def by (rule zero_less_power_int) simp
  have "2 powi (floor_log2 q) < (2::rat) powi (- 1075)"
    using floor_log2_bounds(1) [OF q] small by linarith
  then have "floor_log2 q < - 1075" by (rule powi_le_imp_le)
  then have e: "- 1022 = max (floor_log2 q) (- 1022)" by simp
  have e52: "(- 1022::int) - 52 = - 1074" by simp
  have "(2::rat) powi (- 1074 + - 1) = Q * 2 powi (- 1)"
    unfolding Q_def by (rule powi_split)
  moreover have "(- 1074::int) + - 1 = - 1075" by simp
  moreover have "(2::rat) powi (- 1) = 1 / 2" by (simp add: power_int_minus)
  ultimately have half: "(2::rat) powi (- 1075) = Q * (1 / 2)" by (simp only:)
  have x_lt: "q / Q < 1 / 2"
  proof -
    have "q < Q * (1 / 2)" using small half by (simp only:)
    then show ?thesis using Qpos by (simp add: pos_divide_less_eq mult.commute)
  qed
  have x_pos: "0 < q / Q" using q Qpos by simp
  have "q / Q < 1" using x_lt by linarith
  then have fl: "\<lfloor>q / Q\<rfloor> = 0" using x_pos by (intro floor_unique) simp_all
  have r: "round_half_even (q / Q) = 0"
    using x_lt by (simp add: round_half_even_def fl Let_def)
  have v: "(0::rat) = of_int (round_half_even (q / 2 powi (- 1022 - 52))) * 2 powi (- 1022 - 52)"
    unfolding e52 Q_def [symmetric] r by simp
  have "(0::rat) < 2 powi 1024" by (rule zero_less_power_int) simp
  from double_round_value [OF q e v this] show ?thesis .
qed

lemma page_count_underflow:
  assumes "0 < n" and "int n * 2 ^ 1075 < d"
  shows "page_count n d = Inr 0"
proof -
  have dpos: "0 < d"
  proof -
    have "0 \<le> int n * 2 ^ 1075" by simp
    then show ?thesis using assms(2) by linarith
  qed
  define B where "B = (2::rat) ^ 1075"
  have Bpos: "0 < B" by (simp add: B_def)
  have dr: "(0::rat) < of_int d" using dpos by simp
  have q: "0 < (of_nat n :: rat) / of_int d" using assms(1) dr by simp
  have "(of_int (int n * 2 ^ 1075) :: rat) < of_int d"
    using assms(2) by (simp only: of_int_less_iff)
  then have "(of_nat n :: rat) * B < of_int d" by (simp add: B_def)
  then have "(of_nat n :: rat) / of_int d < 1 / B"
    using dr Bpos by (simp add: field_simps)
  moreover have "(2::rat) powi (- 1075) = 1 / B"
    by (simp add: power_int_minus divide_inverse B_def)
  ultimately have "(of_nat n :: rat) / of_int d < 2 powi (- 1075)" by (simp only:)
  from double_round_small [OF q this] show ?thesis
    using dpos by (simp add: page_count_def true_divide_def)
qed

lemma page_count_exact:
  assumes d: "0 < d" "d < 2 ^ 1075" and n: "n < 2 ^ 53"
  shows "page_count n d = Inr \<lceil>(of_nat n :: rat) / of_int d\<rceil>"
proof (cases "n = 0")
  case True
  then show ?thesis using d by (simp add: page_count_def true_divide_def double_round_def)
next
  case False
  define q where "q = (of_nat n :: rat) / of_int d"
  define c where "c = \<lceil>q\<rceil>"
  define e where "e = max (floor_log2 q) (- 1022)"
  define quantum where "quantum = (2::rat) powi (e - 52)"
  define x where "x = q / quantum"
  define j where "j = nat (52 - e)"
  define P where "P = (2::rat) ^ 52"
  have Ppos: "0 < P" by (simp add: P_def)
  have P53: "(2::rat) ^ 53 = 2 * P"
  proof -
    have "(2::rat) ^ Suc 52 = 2 * 2 ^ 52" by (rule power_Suc)
    then show ?thesis by (simp add: P_def)
  qed
  have dr: "(0::rat) < of_int d" using d by simp
  have qpos: "0 < q" using False dr by (simp add: q_def)
  have qd: "q * of_int d = of_nat n" using dr by (simp add: q_def)
  have nlt: "(of_nat n :: rat) < 2 ^ 53"
  proof -
    have "(of_nat n :: rat) < of_nat (2 ^ 53)" using n by (simp only: of_nat_less_iff)
    then show ?thesis by simp
  qed
  have q_le_n: "q \<le> of_nat n"
  proof -
    have "(1::rat) \<le> of_int d" using d by simp
    then have "q * 1 \<le> q * of_int d" using qpos by (intro mult_left_mono) simp_all
    then show ?thesis using qd by simp
  qed
  \<comment> \<open>the exponent\<close>
  have p53: "(2::rat) powi 53 = 2 ^ 53" by simp
  have "2 powi (floor_log2 q) \<le> q" using floor_log2_bounds(1) [OF qpos] .
  then have "(2::rat) powi (floor_log2 q) < 2 powi 53" using q_le_n nlt p53 by linarith
  then have fl53: "floor_log2 q < 53" by (rule powi_le_imp_le)
  have e52: "e \<le> 52" using fl53 by (simp add: e_def)
  have quantum_pos: "0 < quantum" unfolding quantum_def by (rule zero_less_power_int) simp
  have quantum_j: "quantum * 2 ^ j = 1"
  proof -
    have "(2::rat) ^ j = 2 powi (52 - e)" using e52 by (simp add: j_def power_int_def)
    moreover have "(2::rat) powi ((e - 52) + (52 - e)) = 2 powi (e - 52) * 2 powi (52 - e)"
      by (rule powi_split)
    ultimately show ?thesis by (simp add: quantum_def)
  qed
  have quantum_P: "quantum * P = 2 powi e"
  proof -
    have "(2::rat) powi ((e - 52) + 52) = 2 powi (e - 52) * 2 powi 52" by (rule powi_split)
    moreover have "(2::rat) powi 52 = P" by (simp add: P_def)
    ultimately show ?thesis by (simp add: quantum_def)
  qed
  \<comment> \<open>half a quantum is below 1/d\<close>
  have qd2: "quantum * of_int d < 2"
  proof (cases "- 1022 \<le> floor_log2 q")
    case True
    then have ee: "e = floor_log2 q" by (simp add: e_def)
    have "2 powi e * of_int d \<le> q * of_int d"
      using floor_log2_bounds(1) [OF qpos] dr unfolding ee by (intro mult_right_mono) simp_all
    then have "2 powi e * of_int d < 2 * P" using qd nlt P53 by linarith
    then have "(quantum * of_int d) * P < 2 * P"
      by (simp add: quantum_P [symmetric] mult.assoc mult.commute mult.left_commute)
    then show ?thesis using Ppos by (simp only: mult_less_cancel_right_pos)
  next
    case False
    then have ee: "e = - 1022" by (simp add: e_def)
    define A where "A = (2::rat) ^ 1074"
    have Apos: "0 < A" by (simp add: A_def)
    have A2: "(2::rat) ^ 1075 = 2 * A"
    proof -
      have "(2::rat) ^ Suc 1074 = 2 * 2 ^ 1074" by (rule power_Suc)
      then show ?thesis by (simp add: A_def)
    qed
    have "(of_int d :: rat) < of_int (2 ^ 1075)" using d by (simp only: of_int_less_iff)
    then have dlt: "(of_int d :: rat) < 2 * A" using A2 by simp
    have "(- 1022::int) - 52 = - 1074" by simp
    then have "quantum = 2 powi (- 1074)" by (simp only: quantum_def ee)
    then have "quantum = 1 / A" by (simp add: power_int_minus divide_inverse A_def)
    then have "quantum * of_int d = of_int d / A" by simp
    also have "\<dots> < 2" using dlt Apos by (simp add: pos_divide_less_eq)
    finally show ?thesis .
  qed
  \<comment> \<open>the quotient between two integers\<close>
  have c_hi: "q \<le> of_int c" by (simp add: c_def)
  have c_lo: "of_int c - 1 < q" unfolding c_def by linarith
  have gap: "1 / of_int d \<le> q - of_int (c - 1)"
  proof -
    have "of_int ((c - 1) * d) < (of_nat n :: rat)"
    proof -
      have "of_int (c - 1) * of_int d < q * (of_int d :: rat)"
        using c_lo dr by (intro mult_strict_right_mono) simp_all
      then show ?thesis using qd by simp
    qed
    then have "of_int ((c - 1) * d) < (of_int (int n) :: rat)" by simp
    then have "(c - 1) * d < int n" by (simp only: of_int_less_iff)
    then have "(c - 1) * d + 1 \<le> int n" by simp
    then have "(of_int ((c - 1) * d + 1) :: rat) \<le> of_int (int n)" by (simp only: of_int_le_iff)
    then have "of_int (c - 1) * of_int d + 1 \<le> q * (of_int d :: rat)" using qd by simp
    then have "1 \<le> (q - of_int (c - 1)) * (of_int d :: rat)" by (simp add: algebra_simps)
    then show ?thesis using dr by (simp add: pos_divide_le_eq)
  qed
  \<comment> \<open>rounding the scaled quotient\<close>
  have xK1: "x = q * 2 ^ j"
  proof -
    have "q * 2 ^ j * quantum = q * (quantum * 2 ^ j)" by simp
    then have "q * 2 ^ j * quantum = q" by (simp only: quantum_j mult_1_right)
    then show ?thesis using quantum_pos by (simp add: x_def field_simps)
  qed
  have up: "round_half_even x \<le> c * 2 ^ j"
  proof -
    have "q * 2 ^ j \<le> of_int c * 2 ^ j" using c_hi by (intro mult_right_mono) simp_all
    then have "x \<le> of_int (c * 2 ^ j)" by (simp add: xK1)
    then have "\<lceil>x\<rceil> \<le> c * 2 ^ j" by (simp only: ceiling_le_iff)
    then show ?thesis using round_half_even_le_ceiling [of x] by linarith
  qed
  have lo: "(c - 1) * 2 ^ j + 1 \<le> round_half_even x"
  proof -
    have "quantum * of_int d / 2 < 1" using qd2 by simp
    then have "quantum / 2 < 1 / of_int d"
      using dr by (simp add: field_simps)
    then have "quantum / 2 < q - of_int (c - 1)" using gap by linarith
    then have "(quantum / 2) * 2 ^ j < (q - of_int (c - 1)) * 2 ^ j"
      by (intro mult_strict_right_mono) simp_all
    moreover have "(quantum / 2) * 2 ^ j = 1 / 2" using quantum_j by simp
    moreover have "(q - of_int (c - 1)) * 2 ^ j = x - of_int ((c - 1) * 2 ^ j)"
      by (simp add: xK1 algebra_simps)
    ultimately have "1 / 2 < x - of_int ((c - 1) * 2 ^ j)" by (simp only:)
    then have "of_int ((c - 1) * 2 ^ j) < x - 1 / 2" by linarith
    then have "(of_int ((c - 1) * 2 ^ j) :: rat) < of_int (round_half_even x)"
      using round_half_even_lower [of x] by linarith
    then have "(c - 1) * 2 ^ j < round_half_even x" by (simp only: of_int_less_iff)
    then show ?thesis by simp
  qed
  define v where "v = of_int (round_half_even x) * quantum"
  have v_hi: "v \<le> of_int c"
  proof -
    have "of_int (round_half_even x) \<le> (of_int (c * 2 ^ j) :: rat)"
      using up by (simp only: of_int_le_iff)
    then have "v \<le> of_int (c * 2 ^ j) * quantum"
      unfolding v_def using quantum_pos by (intro mult_right_mono) simp_all
    also have "\<dots> = of_int c * (quantum * 2 ^ j)" by simp
    finally show ?thesis by (simp only: quantum_j mult_1_right)
  qed
  have v_lo: "of_int c - 1 < v"
  proof -
    have "(of_int ((c - 1) * 2 ^ j + 1) :: rat) \<le> of_int (round_half_even x)"
      using lo by (simp only: of_int_le_iff)
    then have "of_int ((c - 1) * 2 ^ j + 1) * quantum \<le> v"
      unfolding v_def using quantum_pos by (intro mult_right_mono) simp_all
    moreover have "of_int ((c - 1) * 2 ^ j + 1) * quantum = of_int (c - 1) * (quantum * 2 ^ j) + quantum"
      by (simp add: algebra_simps)
    ultimately have "of_int (c - 1) * (quantum * 2 ^ j) + quantum \<le> v" by (simp only:)
    then have "of_int (c - 1) + quantum \<le> v" by (simp only: quantum_j mult_1_right)
    then show ?thesis using quantum_pos by simp
  qed
  have ceil_v: "\<lceil>v\<rceil> = c" using v_lo v_hi by (simp add: ceiling_eq_iff)
  have c_le_n: "of_int c \<le> (of_nat n :: rat)"
  proof -
    have "c \<le> \<lceil>(of_nat n :: rat)\<rceil>" unfolding c_def using q_le_n by (rule ceiling_mono)
    then have "c \<le> int n" by simp
    then have "(of_int c :: rat) \<le> of_int (int n)" by (simp only: of_int_le_iff)
    then show ?thesis by simp
  qed
  have no_overflow: "v < 2 powi 1024"
  proof -
    have "v < 2 ^ 53" using v_hi c_le_n nlt by linarith
    also have "(2::rat) ^ 53 \<le> 2 ^ 1024" by (rule power_increasing) simp_all
    also have "(2::rat) ^ 1024 = 2 powi 1024" by simp
    finally show ?thesis .
  qed
  have "double_round q = Inr v"
    by (rule double_round_value [OF qpos e_def _ no_overflow])
      (simp add: v_def x_def quantum_def)
  then show ?thesis
    using d by (simp add: page_count_def true_divide_def q_def [symmetric] ceil_v c_def)
qed

lemma ceiling_small_quotient:
  assumes "2 ^ 1075 < d"
  shows "\<lceil>(of_nat (length [x]) :: rat) / of_int d\<rceil> = 1"
proof -
  have "(1::int) \<le> 2 ^ 1075" by (rule one_le_power) simp
  then have d1: "1 < d" using assms by linarith
  then have "(1::rat) < of_int d" by simp
  then have "(0::rat) < 1 / of_int d" and "1 / of_int d \<le> (1::rat)" by simp_all
  then have "\<lceil>(1::rat) / of_int d\<rceil> = 1" by (intro ceiling_unique) simp_all
  then show ?thesis by simp
qed

lemma static_paginator_underflow:
  assumes "2 ^ 1075 < d"
  shows "StaticPaginator_init [x] d base = Inr (Paginator_init (static_callback [x] d base) 0)"
proof -
  have "page_count 1 d = Inr 0" using assms by (intro page_count_underflow) simp_all
  then show ?thesis by (simp add: StaticPaginator_init_def)
qed

declare power_numeral [simp]

lemma pow2_1075_less_pow10_400: "(2::int) ^ 1075 < 10 ^ 400"
  by simp

lemma ceiling_32_15: "\<lceil>(of_nat 32 :: rat) / of_int 15\<rceil> = 3"
proof -
  have "(\<lceil>(of_nat 32 :: rat) / of_int 15\<rceil> - 1) * 15 < int 32
      \<and> int 32 \<le> \<lceil>(of_nat 32 :: rat) / of_int 15\<rceil> * 15"
    by (rule ceil_bounds) simp
  then show ?thesis by simp
qed

lemma page_count_32_15: "page_count 32 15 = Inr 3"
proof -
  have "page_count 32 15 = Inr \<lceil>(of_nat 32 :: rat) / of_int 15\<rceil>"
    by (rule page_count_exact) simp_all
  then show ?thesis by (simp only: ceiling_32_15)
qed

subsection \<open>StaticPaginator\<close>

text \<open>
  C7, as stated, for every positive line limit: with one line and a limit of \<open>10^400\<close> the
  double \<open>1 / 10^400\<close> is \<open>0.0\<close>, so the constructor stores \<open>pages = 0\<close>, while the ceiling of
  the quotient is 1.
\<close>

theorem static_paginator_pages_counterexample:
  "StaticPaginator_init [''a''] (10 ^ 400) \<lparr>description = None\<rparr>
     = Inr (Paginator_init (static_callback [''a''] (10 ^ 400) \<lparr>description = None\<rparr>) 0)
   \<and> pages (Paginator_init (static_callback [''a''] (10 ^ 400) \<lparr>description = None\<rparr>) 0) = 0
   \<and> \<lceil>(of_nat (length [''a'']) :: rat) / of_int (10 ^ 400)\<rceil> = 1"
proof (intro conjI)
  show "StaticPaginator_init [''a''] (10 ^ 400) \<lparr>description = None\<rparr>
     = Inr (Paginator_init (static_callback [''a''] (10 ^ 400) \<lparr>description = None\<rparr>) 0)"
    using pow2_1075_less_pow10_400 by (rule static_paginator_underflow)
  show "pages (Paginator_init (static_callback [''a''] (10 ^ 400) \<lparr>description = None\<rparr>) 0) = 0"
    unfolding Paginator_init_def update_buttons_def by (simp only: paginator.simps)
  show "\<lceil>(of_nat (length [''a'']) :: rat) / of_int (10 ^ 400)\<rceil> = 1"
    using pow2_1075_less_pow10_400 by (rule ceiling_small_quotient)
qed

text \<open>
  C7, amended: for fewer than \<open>2^53\<close> lines and a positive line limit below \<open>2^1075\<close> the
  constructor succeeds and the page count is the ceiling of \<open>len(lines) / line_limit\<close> (the
  least \<open>k\<close> with \<open>len \<le> k * line_limit\<close>). For every line limit with which the constructor
  succeeds, page \<open>N\<close> renders one embed whose description joins the slice
  \<open>lines[(N-1)*line_limit : N*line_limit]\<close> with the newline character; for a positive limit
  and from page 1 on that slice is the \<open>line_limit\<close> lines after the first
  \<open>(N-1)*line_limit\<close>. With 32 lines and a limit of 15 there are 3 pages and page 3 renders
  \<open>lines[30:32]\<close>, two lines.
\<close>

theorem static_paginator_pages_and_slices:
  "(0 < line_limit \<and> line_limit < 2 ^ 1075 \<and> length lines < 2 ^ 53 \<longrightarrow>
      (\<exists>p. StaticPaginator_init lines line_limit base = Inr p
         \<and> pages p = \<lceil>(of_nat (length lines) :: rat) / of_int line_limit\<rceil>
         \<and> (pages p - 1) * line_limit < int (length lines)
         \<and> int (length lines) \<le> pages p * line_limit))
   \<and> (\<forall>p. StaticPaginator_init lines line_limit base = Inr p \<longrightarrow>
         (\<forall>N. get_page p N =
               [base\<lparr>description := Some (join [CHR 0x0A]
                  (py_slice lines ((N - 1) * line_limit) (N * line_limit)))\<rparr>]))
   \<and> (0 < line_limit \<longrightarrow>
         (\<forall>N\<ge>1. py_slice lines ((N - 1) * line_limit) (N * line_limit) =
               take (nat line_limit) (drop (nat ((N - 1) * line_limit)) lines)))
   \<and> (length lines = 32 \<longrightarrow>
      (\<exists>p. StaticPaginator_init lines 15 base = Inr p
         \<and> pages p = 3
         \<and> get_page p 3 = [base\<lparr>description := Some (join [CHR 0x0A] (py_slice lines 30 32))\<rparr>]
         \<and> py_slice lines 30 32 = drop 30 lines
         \<and> length (py_slice lines 30 32) = 2))"
proof (intro conjI impI allI)
  assume h: "0 < line_limit \<and> line_limit < 2 ^ 1075 \<and> length lines < 2 ^ 53"
  then have pos: "0 < line_limit" by simp
  let ?c = "\<lceil>(of_nat (length lines) :: rat) / of_int line_limit\<rceil>"
  let ?p = "Paginator_init (static_callback lines line_limit base) ?c"
  have pc: "page_count (length lines) line_limit = Inr ?c"
    using h by (intro page_count_exact) simp_all
  have init: "StaticPaginator_init lines line_limit base = Inr ?p"
    by (simp add: StaticPaginator_init_def pc)
  have pgs: "pages ?p = ?c"
    by (simp add: Paginator_init_def update_buttons_def)
  show "\<exists>p. StaticPaginator_init lines line_limit base = Inr p
         \<and> pages p = ?c
         \<and> (pages p - 1) * line_limit < int (length lines)
         \<and> int (length lines) \<le> pages p * line_limit"
    using init pgs ceil_bounds [OF pos, of "length lines"]
    by (intro exI [of _ ?p]) (simp only: simp_thms)
next
  fix p N
  assume "StaticPaginator_init lines line_limit base = Inr p"
  then obtain pgs where "p = Paginator_init (static_callback lines line_limit base) pgs"
    by (auto simp: StaticPaginator_init_def split: sum.splits)
  then show "get_page p N =
      [base\<lparr>description := Some (join [CHR 0x0A]
          (py_slice lines ((N - 1) * line_limit) (N * line_limit)))\<rparr>]"
    by (simp add: get_page_def Paginator_init_def update_buttons_def static_callback_def Let_def)
next
  fix N :: int
  assume "0 < line_limit" and "1 \<le> N"
  then show "py_slice lines ((N - 1) * line_limit) (N * line_limit) =
      take (nat line_limit) (drop (nat ((N - 1) * line_limit)) lines)"
    by (rule py_slice_page)
next
  assume len: "length lines = 32"
  let ?p = "Paginator_init (static_callback lines 15 base) 3"
  have init: "StaticPaginator_init lines 15 base = Inr ?p"
    by (simp add: StaticPaginator_init_def len page_count_32_15)
  have pgs: "pages ?p = 3"
    by (simp add: Paginator_init_def update_buttons_def)
  have sl: "py_slice lines 30 32 = drop 30 lines"
    by (simp add: py_slice_def slice_index_def len)
  have sl': "py_slice lines 30 45 = py_slice lines 30 32"
    by (simp add: py_slice_def slice_index_def len)
  have cb: "get_page ?p 3 = [base\<lparr>description := Some (join [CHR 0x0A] (py_slice lines 30 32))\<rparr>]"
    by (simp add: get_page_def Paginator_init_def update_buttons_def static_callback_def Let_def sl')
  have ln: "length (py_slice lines 30 32) = 2"
    by (simp add: sl len)
  show "\<exists>p. StaticPaginator_init lines 15 base = Inr p
         \<and> pages p = 3
         \<and> get_page p 3 = [base\<lparr>description := Some (join [CHR 0x0A] (py_slice lines 30 32))\<rparr>]
         \<and> py_slice lines 30 32 = drop 30 lines
         \<and> length (py_slice lines 30 32) = 2"
    using init pgs cb sl ln by (intro exI [of _ ?p]) (simp only: simp_thms)
qed

theorem static_paginator_pages_and_slices_witness:
  "(0::int) < 2 \<and> (2::int) < 2 ^ 1075 \<and> length [''a'', ''b'', ''c''] < 2 ^ 53
   \<and> length (replicate 32 ''x'') = 32
   \<and> (\<exists>p. StaticPaginator_init [''a'', ''b'', ''c''] 2 \<lparr>description = None\<rparr> = Inr p
         \<and> pages p = 2
         \<and> get_page p 1 = [\<lparr>description = Some [CHR ''a'', CHR 0x0A, CHR ''b'']\<rparr>]
         \<and> get_page p 2 = [\<lparr>description = Some ''c''\<rparr>])
   \<and> (\<exists>p. StaticPaginator_init (replicate 32 ''x'') 15
              \<lparr>description = None\<rparr> = Inr p
         \<and> pages p = 3
         \<and> get_page p 3 =
             [\<lparr>description = Some [CHR ''x'', CHR 0x0A, CHR ''x'']\<rparr>]
         \<and> length (py_slice (replicate 32 ''x'') 30 32) = 2)"
proof -
  let ?abc = "[''a'', ''b'', ''c'']"
  let ?L = "replicate 32 ''x''"
  have h1: "(0::int) < 2 \<and> (2::int) < 2 ^ 1075 \<and> length ?abc < 2 ^ 53" by simp
  have h2: "length ?L = 32" by simp
  note inst = static_paginator_pages_and_slices [of 2 ?abc "\<lparr>description = None\<rparr>"]
  note gen = inst [THEN conjunct1, THEN mp, OF h1]
  note ren = inst [THEN conjunct2, THEN conjunct1]
  note ex = static_paginator_pages_and_slices
    [of 2 ?L "\<lparr>description = None\<rparr>",
      THEN conjunct2, THEN conjunct2, THEN conjunct2, THEN mp, OF h2]
  from gen obtain p where p:
    "StaticPaginator_init ?abc 2 \<lparr>description = None\<rparr> = Inr p"
    "(pages p - 1) * 2 < int (length ?abc)"
    "int (length ?abc) \<le> pages p * 2"
    by blast
  have r: "\<And>N. get_page p N =
        [\<lparr>description = None\<rparr>\<lparr>description := Some (join [CHR 0x0A]
            (py_slice ?abc ((N - 1) * 2) (N * 2)))\<rparr>]"
    using ren p(1) by blast
  have "pages p = 2" using p(2,3) by simp
  moreover have "get_page p 1 = [\<lparr>description = Some [CHR ''a'', CHR 0x0A, CHR ''b'']\<rparr>]"
    by (simp add: r py_slice_def slice_index_def)
  moreover have "get_page p 2 = [\<lparr>description = Some ''c''\<rparr>]"
    by (simp add: r py_slice_def slice_index_def)
  ultimately have a: "\<exists>p. StaticPaginator_init ?abc 2 \<lparr>description = None\<rparr> = Inr p
         \<and> pages p = 2
         \<and> get_page p 1 = [\<lparr>description = Some [CHR ''a'', CHR 0x0A, CHR ''b'']\<rparr>]
         \<and> get_page p 2 = [\<lparr>description = Some ''c''\<rparr>]"
    using p(1) by blast
  have d30: "drop 30 ?L = [''x'', ''x'']"
    by (simp add: numeral_2_eq_2)
  from ex obtain p' where p':
    "StaticPaginator_init ?L 15 \<lparr>description = None\<rparr> = Inr p'" "pages p' = 3"
    "get_page p' 3 = [\<lparr>description = None\<rparr>\<lparr>description := Some (join [CHR 0x0A] (py_slice ?L 30 32))\<rparr>]"
    "py_slice ?L 30 32 = drop 30 ?L" "length (py_slice ?L 30 32) = 2"
    by blast
  have "get_page p' 3 =
      [\<lparr>description = Some [CHR ''x'', CHR 0x0A, CHR ''x'']\<rparr>]"
    unfolding p'(3) p'(4) d30 by simp
  then have b: "\<exists>p. StaticPaginator_init ?L 15 \<lparr>description = None\<rparr> = Inr p
         \<and> pages p = 3
         \<and> get_page p 3 =
             [\<lparr>description = Some [CHR ''x'', CHR 0x0A, CHR ''x'']\<rparr>]
         \<and> length (py_slice ?L 30 32) = 2"
    using p'(1,2,5) by blast
  show ?thesis using h1 h2 a b by (simp only: simp_thms)
qed

section \<open>Properties of the token handlers\<close>

lemma find_one_Some_iff_distinct:
  assumes "distinct (map f coll)"
  shows "find_one (\<lambda>d. f d = k) coll = Some d \<longleftrightarrow> d \<in> set coll \<and> f d = k"
  using assms unfolding find_one_def
  by (induction coll) (auto simp: image_iff)

lemma find_one_replace_first_same:
  "find_one q coll = Some d0 \<Longrightarrow> q obj \<Longrightarrow> find_one q (replace_first q (\<lambda>_. obj) coll) = Some obj"
  unfolding find_one_def by (induction coll) (auto split: if_splits)

lemma find_one_replace_first_other:
  "(\<And>d. q' d \<Longrightarrow> \<not> q d) \<Longrightarrow> \<not> q' obj
     \<Longrightarrow> find_one q' (replace_first q (\<lambda>_. obj) coll) = find_one q' coll"
  unfolding find_one_def by (induction coll) (auto split: if_splits)

lemma find_one_append:
  "find_one q (xs @ ys) = (case find_one q xs of None \<Rightarrow> find_one q ys | Some d \<Rightarrow> Some d)"
  unfolding find_one_def by (induction xs) auto

lemma find_upsert_token_same:
  "find_one (\<lambda>d. tok_id d = tok_id obj) (upsert_token obj coll) = Some obj"
  by (auto simp: upsert_token_def find_one_append find_one_replace_first_same split: option.splits)
    (simp add: find_one_def)

lemma find_upsert_token_other:
  assumes "h \<noteq> tok_id obj"
  shows "find_one (\<lambda>d. tok_id d = h) (upsert_token obj coll) = find_one (\<lambda>d. tok_id d = h) coll"
proof (cases "find_one (\<lambda>d. tok_id d = tok_id obj) coll")
  case None
  then show ?thesis
    using assms by (simp add: upsert_token_def find_one_append) (simp add: find_one_def split: option.splits)
next
  case (Some d0)
  have "find_one (\<lambda>d. tok_id d = h) (replace_first (\<lambda>d. tok_id d = tok_id obj) (\<lambda>_. obj) coll)
          = find_one (\<lambda>d. tok_id d = h) coll"
    using assms by (intro find_one_replace_first_other) auto
  then show ?thesis using Some by (simp add: upsert_token_def)
qed

text \<open>
  C1, as stated, for every bot state. Two clients hold the token string \<open>tok\<close>; the store
  finds the first document, which expired at 10, so at time 50 the function returns false
  although a document with that token and a later expiry exists. With no static secret
  defined the function raises UndefinedValueError, and on a token document without
  \<open>expires_at\<close> it raises KeyError.
\<close>

theorem validate_authorization_counterexample:
  "validate_authorization ex_cfg
       (ex_bot\<lparr>api_tokens :=
          [\<lparr>tok_id = ''10.0.0.2'', tok_token = ''tok'', tok_created_at = 0,
            tok_expires_at = Some 10, tok_link_string = None\<rparr>,
           ex_token]\<rparr>) 50 ''tok'' False
     = Inr False
   \<and> ex_token \<in> set (api_tokens (ex_bot\<lparr>api_tokens :=
          [\<lparr>tok_id = ''10.0.0.2'', tok_token = ''tok'', tok_created_at = 0,
            tok_expires_at = Some 10, tok_link_string = None\<rparr>,
           ex_token]\<rparr>))
   \<and> tok_token ex_token = ''tok''
   \<and> tok_expires_at ex_token = Some 100
   \<and> (50::int) < 100
   \<and> validate_authorization (ex_cfg\<lparr>API_STATIC_TOKEN := None\<rparr>) ex_bot 50 ''tok'' False
     = Inl (Unhandled UndefinedValueError)
   \<and> validate_authorization ex_cfg
       (ex_bot\<lparr>api_tokens :=
          [\<lparr>tok_id = ''10.0.0.1'', tok_token = ''tok'', tok_created_at = 0,
            tok_expires_at = None, tok_link_string = None\<rparr>]\<rparr>) 50 ''tok'' False
     = Inl (Unhandled KeyError)"
  by (simp add: validate_authorization_def ex_cfg_def ex_bot_def ex_token_def find_one_def)

text \<open>
  C1, amended. The function raises UndefinedValueError exactly when the static bypass is
  not disabled and no static secret is defined, and KeyError exactly when it reaches the
  lookup and the document found has no \<open>expires_at\<close>. Otherwise, that is when the secret is
  defined (or the bypass disabled) and the document the Token Store finds for the token, if
  any, carries \<open>expires_at\<close>, it returns without raising, and it returns true exactly when
  the static bypass is not disabled and the token is the static secret, or the store's
  lookup of the token finds a document and the time is strictly below that document's
  \<open>expires_at\<close>; it returns false in every other case. With token strings unique in the
  store, the document found is any stored document with that token.
\<close>

theorem validate_authorization_iff:
  "(validate_authorization cfg b now t disable_static_tokens = Inl (Unhandled UndefinedValueError))
     = (\<not> disable_static_tokens \<and> API_STATIC_TOKEN cfg = None)
   \<and> (validate_authorization cfg b now t disable_static_tokens = Inl (Unhandled KeyError))
     = ((disable_static_tokens \<or> (\<exists>s. API_STATIC_TOKEN cfg = Some s \<and> s \<noteq> t))
        \<and> (\<exists>d. find_one (\<lambda>d. tok_token d = t) (api_tokens b) = Some d \<and> tok_expires_at d = None))
   \<and> ((disable_static_tokens \<or> API_STATIC_TOKEN cfg \<noteq> None)
        \<and> (\<forall>d. find_one (\<lambda>d. tok_token d = t) (api_tokens b) = Some d \<longrightarrow> tok_expires_at d \<noteq> None)
      \<longrightarrow>
        validate_authorization cfg b now t disable_static_tokens =
          Inr ((\<not> disable_static_tokens \<and> API_STATIC_TOKEN cfg = Some t)
               \<or> (\<exists>d e. find_one (\<lambda>d. tok_token d = t) (api_tokens b) = Some d
                     \<and> tok_expires_at d = Some e \<and> now < e))
        \<and> (distinct (map tok_token (api_tokens b)) \<longrightarrow>
             validate_authorization cfg b now t disable_static_tokens =
               Inr ((\<not> disable_static_tokens \<and> API_STATIC_TOKEN cfg = Some t)
                    \<or> (\<exists>d \<in> set (api_tokens b). tok_token d = t
                          \<and> (\<exists>e. tok_expires_at d = Some e \<and> now < e)))))"
proof (intro conjI impI)
  show "(validate_authorization cfg b now t disable_static_tokens = Inl (Unhandled UndefinedValueError))
     = (\<not> disable_static_tokens \<and> API_STATIC_TOKEN cfg = None)"
    by (auto simp: validate_authorization_def Let_def split: option.splits)
  show "(validate_authorization cfg b now t disable_static_tokens = Inl (Unhandled KeyError))
     = ((disable_static_tokens \<or> (\<exists>s. API_STATIC_TOKEN cfg = Some s \<and> s \<noteq> t))
        \<and> (\<exists>d. find_one (\<lambda>d. tok_token d = t) (api_tokens b) = Some d \<and> tok_expires_at d = None))"
    by (auto simp: validate_authorization_def Let_def split: option.splits)
next
  assume h: "(disable_static_tokens \<or> API_STATIC_TOKEN cfg \<noteq> None)
        \<and> (\<forall>d. find_one (\<lambda>d. tok_token d = t) (api_tokens b) = Some d \<longrightarrow> tok_expires_at d \<noteq> None)"
  then show first: "validate_authorization cfg b now t disable_static_tokens =
          Inr ((\<not> disable_static_tokens \<and> API_STATIC_TOKEN cfg = Some t)
               \<or> (\<exists>d e. find_one (\<lambda>d. tok_token d = t) (api_tokens b) = Some d
                     \<and> tok_expires_at d = Some e \<and> now < e))"
    by (auto simp: validate_authorization_def Let_def split: option.splits)
  assume dist: "distinct (map tok_token (api_tokens b))"
  have "(\<exists>d e. find_one (\<lambda>d. tok_token d = t) (api_tokens b) = Some d
                     \<and> tok_expires_at d = Some e \<and> now < e)
      = (\<exists>d \<in> set (api_tokens b). tok_token d = t \<and> (\<exists>e. tok_expires_at d = Some e \<and> now < e))"
    using find_one_Some_iff_distinct [OF dist] by blast
  with first show "validate_authorization cfg b now t disable_static_tokens =
               Inr ((\<not> disable_static_tokens \<and> API_STATIC_TOKEN cfg = Some t)
                    \<or> (\<exists>d \<in> set (api_tokens b). tok_token d = t
                          \<and> (\<exists>e. tok_expires_at d = Some e \<and> now < e)))"
    by simp
qed

theorem validate_authorization_iff_witness:
  "API_STATIC_TOKEN ex_cfg \<noteq> None
   \<and> find_one (\<lambda>d. tok_token d = ''tok'') (api_tokens ex_bot) = Some ex_token
   \<and> tok_expires_at ex_token \<noteq> None
   \<and> find_one (\<lambda>d. tok_token d = ''other'') (api_tokens ex_bot) = None
   \<and> distinct (map tok_token (api_tokens ex_bot))
   \<and> validate_authorization ex_cfg ex_bot 99 ''tok'' False = Inr True
   \<and> validate_authorization ex_cfg ex_bot 100 ''tok'' False = Inr False
   \<and> validate_authorization ex_cfg ex_bot 99 ''other'' False = Inr False
   \<and> validate_authorization ex_cfg ex_bot 100 ''static'' False = Inr True
   \<and> validate_authorization ex_cfg ex_bot 100 ''static'' True = Inr False
   \<and> validate_authorization (ex_cfg\<lparr>API_STATIC_TOKEN := None\<rparr>) ex_bot 99 ''tok'' False
        = Inl (Unhandled UndefinedValueError)"
proof -
  have c: "API_STATIC_TOKEN ex_cfg \<noteq> None" by (simp add: ex_cfg_def)
  have f: "find_one (\<lambda>d. tok_token d = ''tok'') (api_tokens ex_bot) = Some ex_token"
    by (simp add: ex_bot_def ex_token_def find_one_def)
  have e: "tok_expires_at ex_token \<noteq> None" by (simp add: ex_token_def)
  have o: "find_one (\<lambda>d. tok_token d = ''other'') (api_tokens ex_bot) = None"
    by (simp add: ex_bot_def ex_token_def find_one_def)
  have s: "find_one (\<lambda>d. tok_token d = ''static'') (api_tokens ex_bot) = None"
    by (simp add: ex_bot_def ex_token_def find_one_def)
  have d: "distinct (map tok_token (api_tokens ex_bot))"
    by (simp add: ex_bot_def)
  have ht: "\<And>dis. (dis \<or> API_STATIC_TOKEN ex_cfg \<noteq> None)
        \<and> (\<forall>d. find_one (\<lambda>d. tok_token d = ''tok'') (api_tokens ex_bot) = Some d
              \<longrightarrow> tok_expires_at d \<noteq> None)"
    using c e by (simp add: f)
  have ho: "(False \<or> API_STATIC_TOKEN ex_cfg \<noteq> None)
        \<and> (\<forall>d. find_one (\<lambda>d. tok_token d = ''other'') (api_tokens ex_bot) = Some d
              \<longrightarrow> tok_expires_at d \<noteq> None)"
    using c by (simp add: o)
  have hs: "\<And>dis. (dis \<or> API_STATIC_TOKEN ex_cfg \<noteq> None)
        \<and> (\<forall>d. find_one (\<lambda>d. tok_token d = ''static'') (api_tokens ex_bot) = Some d
              \<longrightarrow> tok_expires_at d \<noteq> None)"
    using c by (simp add: s)
  note main = validate_authorization_iff [THEN conjunct2, THEN conjunct2, THEN mp]
  have r1: "validate_authorization ex_cfg ex_bot 99 ''tok'' False = Inr True"
    using main [OF ht, of 99, THEN conjunct2, THEN mp, OF d]
    by (simp add: ex_bot_def ex_token_def ex_cfg_def)
  have r2: "validate_authorization ex_cfg ex_bot 100 ''tok'' False = Inr False"
    using main [OF ht, of 100, THEN conjunct2, THEN mp, OF d]
    by (simp add: ex_bot_def ex_token_def ex_cfg_def)
  have r3: "validate_authorization ex_cfg ex_bot 99 ''other'' False = Inr False"
    using main [OF ho, of 99, THEN conjunct1]
    by (simp add: o ex_cfg_def)
  have r4: "validate_authorization ex_cfg ex_bot 100 ''static'' False = Inr True"
    using main [OF hs, of 100, THEN conjunct1]
    by (simp add: s ex_cfg_def)
  have r5: "validate_authorization ex_cfg ex_bot 100 ''static'' True = Inr False"
    using main [OF hs, of 100, THEN conjunct1]
    by (simp add: s ex_cfg_def)
  have r6: "validate_authorization (ex_cfg\<lparr>API_STATIC_TOKEN := None\<rparr>) ex_bot 99 ''tok'' False
        = Inl (Unhandled UndefinedValueError)"
    using validate_authorization_iff [THEN conjunct1,
        of "ex_cfg\<lparr>API_STATIC_TOKEN := None\<rparr>" ex_bot 99 "''tok''" False]
    by simp
  show ?thesis using c f e o d r1 r2 r3 r4 r5 r6 by (simp only: simp_thms)
qed

text \<open>
  C2: with the private key defined and presented, a client address whose stored token is
  not past its expiry gets that stored token back and the bot is unchanged; when the
  address has no token, or only one past its expiry, a new token object is built from the
  generated string, persisted under the client address (other addresses keep their
  documents) and returned. Whatever a call returned, a later call before that object's
  expiry returns the same object and changes nothing.
\<close>

theorem get_token_idempotent:
  assumes key: "API_PRIVATE_KEY cfg = Some private_key"
    and auth: "authorization = Some private_key"
  shows "(\<forall>t e. find_one (\<lambda>d. tok_id d = host) (api_tokens b) = Some t
              \<and> tok_expires_at t = Some e \<and> \<not> now > e
            \<longrightarrow> GET_get_token cfg b authorization host generated now nc ne = Inr (t, b))
       \<and> ((\<forall>t. find_one (\<lambda>d. tok_id d = host) (api_tokens b) = Some t
                \<longrightarrow> (\<exists>e. tok_expires_at t = Some e \<and> now > e))
            \<longrightarrow> (let obj = \<lparr>tok_id = host, tok_token = generated, tok_created_at = nc,
                              tok_expires_at = Some (ne + 2592000), tok_link_string = None\<rparr>;
                      b' = b\<lparr>api_tokens := upsert_token obj (api_tokens b)\<rparr>
                  in GET_get_token cfg b authorization host generated now nc ne = Inr (obj, b')
                   \<and> find_one (\<lambda>d. tok_id d = host) (api_tokens b') = Some obj
                   \<and> (\<forall>h. h \<noteq> host \<longrightarrow>
                         find_one (\<lambda>d. tok_id d = h) (api_tokens b')
                           = find_one (\<lambda>d. tok_id d = h) (api_tokens b))))
       \<and> (\<forall>obj b'. GET_get_token cfg b authorization host generated now nc ne = Inr (obj, b')
            \<longrightarrow> (\<exists>e. tok_expires_at obj = Some e
                   \<and> (\<forall>generated2 now2 nc2 ne2. \<not> now2 > e
                        \<longrightarrow> GET_get_token cfg b' authorization host generated2 now2 nc2 ne2
                              = Inr (obj, b'))))"
proof (intro conjI allI impI)
  fix t e
  assume "find_one (\<lambda>d. tok_id d = host) (api_tokens b) = Some t
            \<and> tok_expires_at t = Some e \<and> \<not> now > e"
  then show "GET_get_token cfg b authorization host generated now nc ne = Inr (t, b)"
    using key auth by (simp add: GET_get_token_def)
next
  assume ex: "\<forall>t. find_one (\<lambda>d. tok_id d = host) (api_tokens b) = Some t
                \<longrightarrow> (\<exists>e. tok_expires_at t = Some e \<and> now > e)"
  let ?obj = "\<lparr>tok_id = host, tok_token = generated, tok_created_at = nc,
               tok_expires_at = Some (ne + 2592000), tok_link_string = None\<rparr>"
  have run: "GET_get_token cfg b authorization host generated now nc ne
               = Inr (?obj, b\<lparr>api_tokens := upsert_token ?obj (api_tokens b)\<rparr>)"
    using key auth ex by (auto simp: GET_get_token_def Let_def split: option.splits)
  have same: "find_one (\<lambda>d. tok_id d = host) (upsert_token ?obj (api_tokens b)) = Some ?obj"
    using find_upsert_token_same [of ?obj "api_tokens b"] by simp
  have other: "\<forall>h. h \<noteq> host \<longrightarrow>
      find_one (\<lambda>d. tok_id d = h) (upsert_token ?obj (api_tokens b))
        = find_one (\<lambda>d. tok_id d = h) (api_tokens b)"
    using find_upsert_token_other [of _ ?obj "api_tokens b"] by simp
  show "let obj = ?obj; b' = b\<lparr>api_tokens := upsert_token obj (api_tokens b)\<rparr>
        in GET_get_token cfg b authorization host generated now nc ne = Inr (obj, b')
         \<and> find_one (\<lambda>d. tok_id d = host) (api_tokens b') = Some obj
         \<and> (\<forall>h. h \<noteq> host \<longrightarrow>
               find_one (\<lambda>d. tok_id d = h) (api_tokens b')
                 = find_one (\<lambda>d. tok_id d = h) (api_tokens b))"
    using run same other by (simp add: Let_def)
next
  fix obj b'
  assume a: "GET_get_token cfg b authorization host generated now nc ne = Inr (obj, b')"
  let ?new = "\<lparr>tok_id = host, tok_token = generated, tok_created_at = nc,
               tok_expires_at = Some (ne + 2592000), tok_link_string = None\<rparr>"
  have "\<exists>e. tok_expires_at obj = Some e
          \<and> find_one (\<lambda>d. tok_id d = host) (api_tokens b') = Some obj"
  proof (cases "\<exists>t e. find_one (\<lambda>d. tok_id d = host) (api_tokens b) = Some t
                  \<and> tok_expires_at t = Some e \<and> \<not> now > e")
    case True
    then show ?thesis using a key auth by (auto simp: GET_get_token_def)
  next
    case False
    then have "obj = ?new \<and> b' = b\<lparr>api_tokens := upsert_token ?new (api_tokens b)\<rparr>"
      using a key auth
      by (auto simp: GET_get_token_def Let_def split: option.splits if_splits)
    then show ?thesis
      using find_upsert_token_same [of ?new "api_tokens b"] by simp
  qed
  then obtain e where e: "tok_expires_at obj = Some e"
    and f: "find_one (\<lambda>d. tok_id d = host) (api_tokens b') = Some obj" by blast
  have "\<forall>generated2 now2 nc2 ne2. \<not> now2 > e
          \<longrightarrow> GET_get_token cfg b' authorization host generated2 now2 nc2 ne2 = Inr (obj, b')"
    using key auth e f by (simp add: GET_get_token_def)
  with e show "\<exists>e. tok_expires_at obj = Some e
                   \<and> (\<forall>generated2 now2 nc2 ne2. \<not> now2 > e
                        \<longrightarrow> GET_get_token cfg b' authorization host generated2 now2 nc2 ne2
                              = Inr (obj, b'))"
    by blast
qed

theorem get_token_idempotent_witness:
  "API_PRIVATE_KEY ex_cfg = Some ''private''
   \<and> find_one (\<lambda>d. tok_id d = ''10.0.0.1'') (api_tokens ex_bot) = Some ex_token
   \<and> tok_expires_at ex_token = Some 100
   \<and> \<not> (100::int) > 100
   \<and> GET_get_token ex_cfg ex_bot (Some ''private'') ''10.0.0.1'' ''fresh'' 100 100 100
        = Inr (ex_token, ex_bot)
   \<and> (101::int) > 100
   \<and> GET_get_token ex_cfg ex_bot (Some ''private'') ''10.0.0.1'' ''fresh'' 101 101 101
        = Inr (\<lparr>tok_id = ''10.0.0.1'', tok_token = ''fresh'', tok_created_at = 101,
                 tok_expires_at = Some 2592101, tok_link_string = None\<rparr>,
               ex_bot\<lparr>api_tokens :=
                 [\<lparr>tok_id = ''10.0.0.1'', tok_token = ''fresh'', tok_created_at = 101,
                   tok_expires_at = Some 2592101, tok_link_string = None\<rparr>]\<rparr>)"
proof -
  have k: "API_PRIVATE_KEY ex_cfg = Some ''private''"
    by (simp add: ex_cfg_def)
  have f: "find_one (\<lambda>d. tok_id d = ''10.0.0.1'') (api_tokens ex_bot) = Some ex_token"
    by (simp add: ex_bot_def ex_token_def find_one_def)
  have x: "tok_expires_at ex_token = Some 100"
    by (simp add: ex_token_def)
  have e': "\<forall>t. find_one (\<lambda>d. tok_id d = ''10.0.0.1'') (api_tokens ex_bot) = Some t
          \<longrightarrow> (\<exists>e. tok_expires_at t = Some e \<and> 101 > e)"
    by (simp add: f x)
  have u: "upsert_token \<lparr>tok_id = ''10.0.0.1'', tok_token = ''fresh'', tok_created_at = 101,
                   tok_expires_at = Some (101 + 2592000), tok_link_string = None\<rparr>
             (api_tokens ex_bot)
     = [\<lparr>tok_id = ''10.0.0.1'', tok_token = ''fresh'', tok_created_at = 101,
                   tok_expires_at = Some 2592101, tok_link_string = None\<rparr>]"
    by (simp add: upsert_token_def ex_bot_def ex_token_def find_one_def)
  have r1: "GET_get_token ex_cfg ex_bot (Some ''private'') ''10.0.0.1'' ''fresh'' 100 100 100
        = Inr (ex_token, ex_bot)"
    using get_token_idempotent [OF k refl, of "''10.0.0.1''" ex_bot 100 "''fresh''" 100 100,
        THEN conjunct1, rule_format, of ex_token 100] f x by simp
  have r2: "GET_get_token ex_cfg ex_bot (Some ''private'') ''10.0.0.1'' ''fresh'' 101 101 101
        = Inr (\<lparr>tok_id = ''10.0.0.1'', tok_token = ''fresh'', tok_created_at = 101,
                 tok_expires_at = Some 2592101, tok_link_string = None\<rparr>,
               ex_bot\<lparr>api_tokens :=
                 [\<lparr>tok_id = ''10.0.0.1'', tok_token = ''fresh'', tok_created_at = 101,
                   tok_expires_at = Some 2592101, tok_link_string = None\<rparr>]\<rparr>)"
    using get_token_idempotent [OF k refl, of "''10.0.0.1''" ex_bot 101 "''fresh''" 101 101,
        THEN conjunct2, THEN conjunct1, THEN mp, OF e'] u
    by (simp add: Let_def)
  show ?thesis using k f x r1 r2 by (simp only: simp_thms) simp
qed

text \<open>
  C9: at the second that equals a stored token's \<open>expires_at\<close>, \<open>GET_get_token\<close> returns the
  token unchanged while \<open>validate_authorization\<close> returns false for the same token string
  (the static bypass aside).
\<close>

theorem expiry_boundary_disagreement:
  assumes "API_PRIVATE_KEY cfg = Some private_key"
    and "authorization = Some private_key"
    and "find_one (\<lambda>d. tok_id d = host) (api_tokens b) = Some t"
    and "find_one (\<lambda>d. tok_token d = tok_token t) (api_tokens b) = Some t"
    and "tok_expires_at t = Some now"
    and "disable_static_tokens \<or> (\<exists>s. API_STATIC_TOKEN cfg = Some s \<and> tok_token t \<noteq> s)"
  shows "GET_get_token cfg b authorization host generated now nc ne = Inr (t, b)
       \<and> validate_authorization cfg b now (tok_token t) disable_static_tokens = Inr False"
  using assms by (auto simp: GET_get_token_def validate_authorization_def Let_def)

theorem expiry_boundary_disagreement_witness:
  "API_PRIVATE_KEY ex_cfg = Some ''private''
   \<and> find_one (\<lambda>d. tok_id d = ''10.0.0.1'') (api_tokens ex_bot) = Some ex_token
   \<and> find_one (\<lambda>d. tok_token d = tok_token ex_token) (api_tokens ex_bot) = Some ex_token
   \<and> tok_expires_at ex_token = Some 100
   \<and> API_STATIC_TOKEN ex_cfg = Some ''static''
   \<and> tok_token ex_token \<noteq> ''static''
   \<and> GET_get_token ex_cfg ex_bot (Some ''private'') ''10.0.0.1'' ''fresh'' 100 100 100
        = Inr (ex_token, ex_bot)
   \<and> validate_authorization ex_cfg ex_bot 100 ''tok'' False = Inr False"
proof -
  have h1: "API_PRIVATE_KEY ex_cfg = Some ''private''"
    by (simp add: ex_cfg_def)
  have h2: "find_one (\<lambda>d. tok_id d = ''10.0.0.1'') (api_tokens ex_bot) = Some ex_token"
    by (simp add: ex_bot_def ex_token_def find_one_def)
  have h3: "find_one (\<lambda>d. tok_token d = tok_token ex_token) (api_tokens ex_bot) = Some ex_token"
    by (simp add: ex_bot_def ex_token_def find_one_def)
  have h4: "tok_expires_at ex_token = Some 100"
    by (simp add: ex_token_def)
  have s: "API_STATIC_TOKEN ex_cfg = Some ''static''" by (simp add: ex_cfg_def)
  have n: "tok_token ex_token \<noteq> ''static''" by (simp add: ex_token_def)
  have h5: "False \<or> (\<exists>s. API_STATIC_TOKEN ex_cfg = Some s \<and> tok_token ex_token \<noteq> s)"
    using s n by simp
  have tk: "tok_token ex_token = ''tok''" by (simp add: ex_token_def)
  show ?thesis
    using h1 h2 h3 h4 s n
      expiry_boundary_disagreement [OF h1 refl h2 h3 h4 h5, of "''fresh''" 100 100]
    by (simp only: tk simp_thms)
qed

section \<open>Properties of the lookup, settings and duty handlers\<close>

lemma get_discord_results:
  "POST_get_discord b authorization body now = Inr r
     \<Longrightarrow> r = JNull \<or> r = JObj [(''status'', JStr ''failed'')]"
  by (auto simp: POST_get_discord_def link_response_def split: sum.splits if_splits option.splits)

lemma get_fivem_results:
  "POST_get_fivem b authorization jbody now = Inr r
     \<Longrightarrow> r = JNull \<or> r = JObj [(''status'', JStr ''failed'')]"
  by (auto simp: POST_get_fivem_def link_response_def split: sum.splits if_splits option.splits)

text \<open>
  C8: once a request has passed the token and link-string checks and carries a license
  (for \<open>POST_get_fivem\<close>: a \<open>discord_id\<close>), the handler returns \<open>None\<close>, the JSON null, when a
  matching FiveM link exists, and \<open>{"status": "failed"}\<close> when none does; it never returns
  a success object.
\<close>

theorem link_lookup_returns_null:
  assumes "token_link_string b authorization now = Inr link_string_obj"
  shows "(\<forall>d. truthy (id_license body)
              \<and> find_one (\<lambda>d. JStr (fl_license d) = id_license body) (fivem_links b) = Some d
            \<longrightarrow> POST_get_discord b authorization body now = Inr JNull)
       \<and> (truthy (id_license body)
              \<and> find_one (\<lambda>d. JStr (fl_license d) = id_license body) (fivem_links b) = None
            \<longrightarrow> POST_get_discord b authorization body now = Inr (JObj [(''status'', JStr ''failed'')]))
       \<and> (\<forall>discord_id d. truthy jbody \<and> py_get jbody ''discord_id'' = Inr discord_id
              \<and> truthy discord_id
              \<and> find_one (\<lambda>d. JInt (fl_id d) = discord_id) (fivem_links b) = Some d
            \<longrightarrow> POST_get_fivem b authorization jbody now = Inr JNull)
       \<and> (\<forall>discord_id. truthy jbody \<and> py_get jbody ''discord_id'' = Inr discord_id
              \<and> truthy discord_id
              \<and> find_one (\<lambda>d. JInt (fl_id d) = discord_id) (fivem_links b) = None
            \<longrightarrow> POST_get_fivem b authorization jbody now = Inr (JObj [(''status'', JStr ''failed'')]))
       \<and> (\<forall>r. POST_get_discord b authorization body now = Inr r
            \<longrightarrow> r = JNull \<or> r = JObj [(''status'', JStr ''failed'')])
       \<and> (\<forall>r. POST_get_fivem b authorization jbody now = Inr r
            \<longrightarrow> r = JNull \<or> r = JObj [(''status'', JStr ''failed'')])"
  using assms get_discord_results [of b authorization body now]
    get_fivem_results [of b authorization jbody now]
  by (simp add: POST_get_discord_def POST_get_fivem_def link_response_def)

theorem link_lookup_returns_null_witness:
  "token_link_string ex_bot (Some ''tok'') 50 = Inr \<lparr>ls_id = ''ls1'', ls_guild = 1\<rparr>
   \<and> POST_get_discord ex_bot (Some ''tok'')
        \<lparr>id_license = JStr ''lic'', id_discord = JNull, id_source = ''fivem''\<rparr> 50 = Inr JNull
   \<and> POST_get_discord ex_bot (Some ''tok'')
        \<lparr>id_license = JStr ''nobody'', id_discord = JNull, id_source = ''fivem''\<rparr> 50
        = Inr (JObj [(''status'', JStr ''failed'')])
   \<and> POST_get_fivem ex_bot (Some ''tok'') (JObj [(''discord_id'', JInt 7)]) 50 = Inr JNull
   \<and> POST_get_fivem ex_bot (Some ''tok'') (JObj [(''discord_id'', JInt 8)]) 50
        = Inr (JObj [(''status'', JStr ''failed'')])"
proof -
  have h: "token_link_string ex_bot (Some ''tok'') 50 = Inr \<lparr>ls_id = ''ls1'', ls_guild = 1\<rparr>"
    by (simp add: token_link_string_def ex_bot_def ex_token_def find_one_def)
  have f1: "find_one (\<lambda>d. JStr (fl_license d) = JStr ''lic'') (fivem_links ex_bot)
              = Some \<lparr>fl_id = 7, fl_license = ''lic'', fl_steam_id = ''steam7''\<rparr>"
    by (simp add: ex_bot_def find_one_def)
  have f2: "find_one (\<lambda>d. JStr (fl_license d) = JStr ''nobody'') (fivem_links ex_bot) = None"
    by (simp add: ex_bot_def find_one_def)
  have f3: "find_one (\<lambda>d. JInt (fl_id d) = JInt 7) (fivem_links ex_bot)
              = Some \<lparr>fl_id = 7, fl_license = ''lic'', fl_steam_id = ''steam7''\<rparr>"
    by (simp add: ex_bot_def find_one_def)
  have f4: "find_one (\<lambda>d. JInt (fl_id d) = JInt 8) (fivem_links ex_bot) = None"
    by (simp add: ex_bot_def find_one_def)
  have a: "POST_get_discord ex_bot (Some ''tok'')
        \<lparr>id_license = JStr ''lic'', id_discord = JNull, id_source = ''fivem''\<rparr> 50 = Inr JNull"
    using link_lookup_returns_null [OF h, THEN conjunct1, rule_format,
        of "\<lparr>id_license = JStr ''lic'', id_discord = JNull, id_source = ''fivem''\<rparr>"] f1
    by simp
  have b: "POST_get_discord ex_bot (Some ''tok'')
        \<lparr>id_license = JStr ''nobody'', id_discord = JNull, id_source = ''fivem''\<rparr> 50
        = Inr (JObj [(''status'', JStr ''failed'')])"
    using link_lookup_returns_null [OF h, THEN conjunct2, THEN conjunct1, rule_format,
        of "\<lparr>id_license = JStr ''nobody'', id_discord = JNull, id_source = ''fivem''\<rparr>"] f2
    by simp
  have c: "POST_get_fivem ex_bot (Some ''tok'') (JObj [(''discord_id'', JInt 7)]) 50 = Inr JNull"
    using link_lookup_returns_null [OF h, THEN conjunct2, THEN conjunct2, THEN conjunct1,
        rule_format, of "JObj [(''discord_id'', JInt 7)]" "JInt 7"] f3
    by simp
  have d: "POST_get_fivem ex_bot (Some ''tok'') (JObj [(''discord_id'', JInt 8)]) 50
        = Inr (JObj [(''status'', JStr ''failed'')])"
    using link_lookup_returns_null [OF h, THEN conjunct2, THEN conjunct2, THEN conjunct2,
        THEN conjunct1, rule_format, of "JObj [(''discord_id'', JInt 8)]" "JInt 8"] f4
    by simp
  show ?thesis using h a b c d by (simp only: simp_thms)
qed

lemma settings_loop_no_dict:
  assumes "\<forall>(k, v) \<in> set items. k \<noteq> ''guild'' \<longrightarrow> (\<forall>inner. v \<noteq> JObj inner)"
  shows "settings_loop b guild_id items cur = Inr (Inr cur)"
  using assms
proof (induction items)
  case Nil
  then show ?case by simp
next
  case (Cons kv items)
  obtain k v where kv: "kv = (k, v)" by (cases kv)
  have rest: "settings_loop b guild_id items cur = Inr (Inr cur)"
    using Cons by simp
  show ?case
  proof (cases "k = ''guild''")
    case True
    then show ?thesis using rest kv by simp
  next
    case False
    then have "\<forall>inner. v \<noteq> JObj inner" using Cons.prems kv by simp
    then show ?thesis using rest kv False by (cases v) simp_all
  qed
qed

text \<open>
  C10: for a body with no dict value under a key other than \<open>guild\<close>, the loop leaves the
  local \<open>settings\<close> unassigned and the handler ends in the unhandled UnboundLocalError (a
  NameError) at \<open>update_by_id(settings)\<close>, whether or not the body names a guild. When the
  400 "Invalid guild" for a falsy guild id is returned after the loop, the settings have
  already been persisted.
\<close>

theorem update_guild_settings_unassigned:
  "((\<forall>(k, v) \<in> set items. k \<noteq> ''guild'' \<longrightarrow> (\<forall>inner. v \<noteq> JObj inner))
      \<longrightarrow> POST_update_guild_settings py_int b (JObj items) = Inl (Unhandled UnboundLocalError))
   \<and> (\<forall>guild_id st. py_get (JObj items) ''guild'' = Inr guild_id
         \<and> settings_loop b guild_id items None = Inr (Inr (Some st))
         \<and> \<not> truthy guild_id
        \<longrightarrow> POST_update_guild_settings py_int b (JObj items)
              = Inr (Returned_HTTPException 400 ''Invalid guild'',
                     b\<lparr>settings := settings_update_by_id st (settings b)\<rparr>))"
proof (intro conjI impI allI)
  assume "\<forall>(k, v) \<in> set items. k \<noteq> ''guild'' \<longrightarrow> (\<forall>inner. v \<noteq> JObj inner)"
  then have "settings_loop b (case map_of items ''guild'' of None \<Rightarrow> JNull | Some v \<Rightarrow> v) items None
               = Inr (Inr None)"
    by (rule settings_loop_no_dict)
  then show "POST_update_guild_settings py_int b (JObj items) = Inl (Unhandled UnboundLocalError)"
    by (simp add: POST_update_guild_settings_def)
next
  fix guild_id st
  assume "py_get (JObj items) ''guild'' = Inr guild_id
         \<and> settings_loop b guild_id items None = Inr (Inr (Some st))
         \<and> \<not> truthy guild_id"
  then show "POST_update_guild_settings py_int b (JObj items)
              = Inr (Returned_HTTPException 400 ''Invalid guild'',
                     b\<lparr>settings := settings_update_by_id st (settings b)\<rparr>)"
    by (auto simp: POST_update_guild_settings_def Let_def)
qed


theorem update_guild_settings_unassigned_witness:
  "POST_update_guild_settings ex_int ex_bot (JObj [(''guild'', JInt 1), (''prefix'', JStr ''!'')])
        = Inl (Unhandled UnboundLocalError)
   \<and> POST_update_guild_settings ex_int ex_bot (JObj [(''prefix'', JStr ''!'')])
        = Inl (Unhandled UnboundLocalError)
   \<and> POST_update_guild_settings ex_int
        (ex_bot\<lparr>settings := [[(''_id'', JInt 0), (''a'', JObj [])]]\<rparr>)
        (JObj [(''guild'', JInt 0), (''a'', JObj [(''x'', JInt 1)])])
        = Inr (Returned_HTTPException 400 ''Invalid guild'',
               ex_bot\<lparr>settings := [[(''_id'', JInt 0), (''a'', JObj [(''x'', JInt 1)])]]\<rparr>)"
proof -
  have h1: "\<forall>(k, v) \<in> set [(''guild'', JInt 1), (''prefix'', JStr ''!'')].
       k \<noteq> ''guild'' \<longrightarrow> (\<forall>inner. v \<noteq> JObj inner)"
    by simp
  have h2: "\<forall>(k, v) \<in> set [(''prefix'', JStr ''!'')]. k \<noteq> ''guild'' \<longrightarrow> (\<forall>inner. v \<noteq> JObj inner)"
    by simp
  have r1: "POST_update_guild_settings ex_int ex_bot (JObj [(''guild'', JInt 1), (''prefix'', JStr ''!'')])
        = Inl (Unhandled UnboundLocalError)"
    using update_guild_settings_unassigned [THEN conjunct1, THEN mp, OF h1] .
  have r2: "POST_update_guild_settings ex_int ex_bot (JObj [(''prefix'', JStr ''!'')])
        = Inl (Unhandled UnboundLocalError)"
    using update_guild_settings_unassigned [THEN conjunct1, THEN mp, OF h2] .
  let ?b = "ex_bot\<lparr>settings := [[(''_id'', JInt 0), (''a'', JObj [])]]\<rparr>"
  let ?items = "[(''guild'', JInt 0), (''a'', JObj [(''x'', JInt 1)])]"
  have g: "py_get (JObj ?items) ''guild'' = Inr (JInt 0)" by simp
  have l: "settings_loop ?b (JInt 0) ?items None
             = Inr (Inr (Some [(''_id'', JInt 0), (''a'', JObj [(''x'', JInt 1)])]))"
    by (simp add: settings_find_by_id_def find_one_def)
  have u: "settings_update_by_id [(''_id'', JInt 0), (''a'', JObj [(''x'', JInt 1)])] (settings ?b)
             = [[(''_id'', JInt 0), (''a'', JObj [(''x'', JInt 1)])]]"
    by (simp add: settings_update_by_id_def)
  have r3: "POST_update_guild_settings ex_int ?b (JObj ?items)
        = Inr (Returned_HTTPException 400 ''Invalid guild'',
               ex_bot\<lparr>settings := [[(''_id'', JInt 0), (''a'', JObj [(''x'', JInt 1)])]]\<rparr>)"
    using update_guild_settings_unassigned [THEN conjunct2, rule_format,
        of ?items "JInt 0" ?b "[(''_id'', JInt 0), (''a'', JObj [(''x'', JInt 1)])]" ex_int] g l u
    by simp
  show ?thesis using r1 r2 r3 by (simp only: simp_thms)
qed

lemma available_shift_types_unassigned:
  "map_of st ''shift_types'' = None \<Longrightarrow> available_shift_types st = Inr None"
  by (simp add: available_shift_types_def)

lemma duty_on_open_unassigned:
  "py_get body ''shift_type'' = Inr shift_type \<Longrightarrow> truthy shift_type
     \<Longrightarrow> duty_on_open b member g body None = Inl (Unhandled UnboundLocalError)"
  by (simp add: duty_on_open_def)

lemma duty_on_open_not_configured:
  "py_get body ''shift_type'' = Inr shift_type \<Longrightarrow> truthy shift_type \<Longrightarrow> \<not> py_in shift_type ids
     \<Longrightarrow> duty_on_open b member g body (Some ids) = Inl (HTTPException 400 ''Invalid shift type'')"
  by (simp add: duty_on_open_def)

lemma duty_on_open_configured:
  "py_get body ''shift_type'' = Inr shift_type \<Longrightarrow> truthy shift_type \<Longrightarrow> py_in shift_type ids
     \<Longrightarrow> duty_on_open b member g body (Some ids)
           = Inr (shift_type, add_shift_by_user (shifts b) member
                    \<lparr>sh_guild = g_id g, sh_shift_type = Some shift_type\<rparr>)"
  by (simp add: duty_on_open_def)

lemmas ex_simps = ex_bot_def ex_token_def ex_cfg_def find_one_def token_link_string_def
  duty_on_guild_def get_guild_def steam_fivem_link_def member_of_link_def fetch_member_def
  settings_find_by_id_def available_shift_types_def duty_on_open_def py_in_def
  add_shift_by_user_def

text \<open>
  C3: the handler at the failing input. The guild's settings have no \<open>shift_types\<close> and the
  body, which carries the \<open>Identification\<close> fields, asks for shift type 5: the handler ends in the unhandled UnboundLocalError, not in
  an HTTP 400. With shift type 5 configured, an unconfigured 6 gives the 400
  and the configured 5 opens a shift tagged 5.
\<close>

theorem duty_on_missing_shift_types:
  "POST_duty_on (ex_bot\<lparr>settings := [[(''_id'', JInt 1)]]\<rparr>) (Some ''tok'')
       (JObj [(''source'', JStr ''fivem''), (''license'', JNull), (''discord'', JNull),
             (''steam_id'', JStr ''steam7''), (''shift_type'', JInt 5)]) 50
     = Inl (Unhandled UnboundLocalError)
   \<and> POST_duty_on ex_bot (Some ''tok'')
       (JObj [(''source'', JStr ''fivem''), (''license'', JNull), (''discord'', JNull),
             (''steam_id'', JStr ''steam7''), (''shift_type'', JInt 6)]) 50
     = Inl (HTTPException 400 ''Invalid shift type'')
   \<and> POST_duty_on ex_bot (Some ''tok'')
       (JObj [(''source'', JStr ''fivem''), (''license'', JNull), (''discord'', JNull),
             (''steam_id'', JStr ''steam7''), (''shift_type'', JInt 5)]) 50
     = Inr (JObj [(''status'', JStr ''success''), (''member'', JInt 7), (''shift_type'', JInt 5)],
            ex_bot\<lparr>shifts := [\<lparr>sd_id = 7,
              sd_data = [Some \<lparr>sh_guild = 1, sh_shift_type = Some (JInt 5)\<rparr>]\<rparr>]\<rparr>)"
  by (simp add: POST_duty_on_def ex_simps)

lemma duty_off_without_token_fails:
  assumes "find_one (\<lambda>d. tok_token d = a) (api_tokens b) = None"
  shows "\<exists>e. POST_duty_off cfg b (Some a) body now = Inl e"
  using assms
  by (auto simp: POST_duty_off_def duty_off_guild_def duty_off_fivem_link_def
      duty_off_member_def Let_def split: sum.splits guild_value.splits)

text \<open>
  C4: the handler at the failing input. The static token passes validation, no token
  document carries it, and the body supplies guild 1, where member 7 has an open shift: the
  handler ends in the unhandled AttributeError at \<open>guild.fetch_member\<close> instead of closing
  the shift.
\<close>

theorem duty_off_static_token_raises:
  "validate_authorization ex_cfg ex_busy_bot 50 ''static'' False = Inr True
   \<and> find_one (\<lambda>d. tok_token d = ''static'') (api_tokens ex_busy_bot) = None
   \<and> POST_duty_off ex_cfg ex_busy_bot (Some ''static'')
       (JObj [(''guild'', JInt 1), (''steam_id'', JStr ''steam7'')]) 50
     = Inl (Unhandled AttributeError)"
  by (simp add: POST_duty_off_def validate_authorization_def duty_off_guild_def
      duty_off_fivem_link_def duty_off_member_def ex_busy_bot_def ex_simps Let_def)

section \<open>Duty-on followed by duty-off\<close>

lemma find_one_replace_first_keep:
  assumes "\<And>d. q d \<Longrightarrow> q (f d)"
  shows "find_one q (replace_first q f coll) = map_option f (find_one q coll)"
  using assms unfolding find_one_def by (induction coll) auto

lemma open_shifts_after_add:
  "open_shifts (b\<lparr>shifts := add_shift_by_user (shifts b) m sh\<rparr>) m (sh_guild sh) = [Some sh]"
proof (cases "find_one (\<lambda>d. sd_id d = m) (shifts b)")
  case None
  then show ?thesis
    by (simp add: open_shifts_def add_shift_by_user_def find_one_append shift_of_guild_def)
      (simp add: find_one_def shift_of_guild_def)
next
  case (Some doc)
  have "find_one (\<lambda>d. sd_id d = m)
          (replace_first (\<lambda>d. sd_id d = m)
            (\<lambda>d. d\<lparr>sd_data :=
                   filter (\<lambda>x. \<not> shift_of_guild (sh_guild sh) x) (sd_data d) @ [Some sh]\<rparr>)
            (shifts b))
        = Some (doc\<lparr>sd_data :=
                   filter (\<lambda>x. \<not> shift_of_guild (sh_guild sh) x) (sd_data doc) @ [Some sh]\<rparr>)"
    using Some by (simp add: find_one_replace_first_keep)
  then show ?thesis
    using Some by (simp add: open_shifts_def add_shift_by_user_def shift_of_guild_def)
qed

lemma open_shifts_remove:
  "open_shifts (b\<lparr>shifts := remove_shift_by_user (shifts b) m sh\<rparr>) m gid
     = (case find_one (\<lambda>d. sd_id d = m) (shifts b) of
          None \<Rightarrow> []
        | Some doc \<Rightarrow> filter (shift_of_guild gid) (remove1 (Some sh) (sd_data doc)))"
  by (simp add: open_shifts_def remove_shift_by_user_def find_one_replace_first_keep
      split: option.splits)

lemma duty_on_guild_request:
  "duty_on_guild b a now = Inr g \<Longrightarrow> request_guild b a = Some (g_id g)"
  by (auto simp: duty_on_guild_def token_link_string_def request_guild_def
      split: option.splits if_splits sum.splits)

lemma steam_fivem_link_request:
  "steam_fivem_link b body = Inr l \<Longrightarrow> request_member b body = Some (fl_id l)"
  by (auto simp: steam_fivem_link_def request_member_def split: option.splits if_splits sum.splits)

lemma member_of_link_id: "member_of_link g l = Inr m \<Longrightarrow> m = fl_id l"
  by (auto simp: member_of_link_def fetch_member_def split: option.splits if_splits)

lemma duty_on_open_ledger:
  "duty_on_open b m g body available = Inr (st, ledger)
     \<Longrightarrow> \<exists>t. ledger = add_shift_by_user (shifts b) m \<lparr>sh_guild = g_id g, sh_shift_type = t\<rparr>"
  by (auto simp: duty_on_open_def split: option.splits if_splits sum.splits)

lemma duty_on_success:
  assumes "POST_duty_on b a body now = Inr (r, b1)"
  shows "\<exists>gid m t. request_guild b a = Some gid \<and> request_member b body = Some m
           \<and> b1 = b\<lparr>shifts := add_shift_by_user (shifts b) m \<lparr>sh_guild = gid, sh_shift_type = t\<rparr>\<rparr>"
proof -
  from assms obtain g l m st av sty ledger where s:
    "duty_on_guild b a now = Inr g" "steam_fivem_link b body = Inr l"
    "member_of_link g l = Inr m" "duty_on_open b m g body av = Inr (sty, ledger)"
    "b1 = b\<lparr>shifts := ledger\<rparr>"
    by (auto simp: POST_duty_on_def split: sum.splits option.splits if_splits prod.splits)
  from duty_on_open_ledger [OF s(4)] obtain t where
    "ledger = add_shift_by_user (shifts b) m \<lparr>sh_guild = g_id g, sh_shift_type = t\<rparr>" by blast
  then show ?thesis
    using duty_on_guild_request [OF s(1)] steam_fivem_link_request [OF s(2)]
      member_of_link_id [OF s(3)] s(5) by blast
qed

text \<open>In the model the ledger after a successful duty-on holds exactly one open shift of
  the member in the guild.\<close>

lemma duty_on_opens_one:
  assumes "POST_duty_on b a body now = Inr (r, b1)"
    and "request_guild b a = Some gid" and "request_member b body = Some m"
  shows "length (open_shifts b1 m gid) = 1"
proof -
  from duty_on_success [OF assms(1)] assms(2,3) obtain t where
    "b1 = b\<lparr>shifts := add_shift_by_user (shifts b) m \<lparr>sh_guild = gid, sh_shift_type = t\<rparr>\<rparr>"
    by auto
  then show ?thesis
    using open_shifts_after_add [of b m "\<lparr>sh_guild = gid, sh_shift_type = t\<rparr>"] by simp
qed

lemma duty_off_guild_request:
  "duty_off_guild b (find_one (\<lambda>d. tok_token d = a) (api_tokens b)) body = Inr (Guild g)
     \<Longrightarrow> request_guild b (Some a) = Some (g_id g)"
  by (auto simp: duty_off_guild_def request_guild_def split: option.splits sum.splits)

lemma duty_off_close_head_is_shift: "duty_off_close b g m \<noteq> Inl (Unhandled TypeError)"
proof -
  have "x \<noteq> None" if "filter (shift_of_guild gid) xs = x # rest" for gid xs x rest
  proof -
    have "x \<in> set (filter (shift_of_guild gid) xs)" using that by simp
    then show ?thesis by (auto simp: shift_of_guild_def split: option.splits)
  qed
  then show ?thesis
    by (auto simp: duty_off_close_def split: option.splits list.splits)
qed

lemma duty_off_close_ledger:
  assumes "duty_off_close b g m = Inr b2"
  shows "\<exists>doc sh rest. find_one (\<lambda>d. sd_id d = m) (shifts b) = Some doc
           \<and> filter (shift_of_guild (g_id g)) (sd_data doc) = Some sh # rest
           \<and> b2 = b\<lparr>shifts := remove_shift_by_user (shifts b) m sh\<rparr>"
  using assms
  by (auto simp: duty_off_close_def split: option.splits list.splits)

lemma duty_off_success:
  assumes "POST_duty_off cfg b a body now = Inr (r, b2)"
  shows "\<exists>gid m doc sh rest. request_guild b a = Some gid \<and> request_member b body = Some m
           \<and> find_one (\<lambda>d. sd_id d = m) (shifts b) = Some doc
           \<and> filter (shift_of_guild gid) (sd_data doc) = Some sh # rest
           \<and> b2 = b\<lparr>shifts := remove_shift_by_user (shifts b) m sh\<rparr>"
proof -
  from assms obtain tk where a: "a = Some tk"
    by (cases a) (simp_all add: POST_duty_off_def)
  let ?tok = "find_one (\<lambda>d. tok_token d = tk) (api_tokens b)"
  from assms a obtain gv fl g m where s:
    "duty_off_guild b ?tok body = Inr gv" "duty_off_fivem_link b ?tok body = Inr fl"
    "duty_off_member gv fl = Inr (g, m)" "duty_off_close b g m = Inr b2"
    by (auto simp: POST_duty_off_def Let_def split: sum.splits if_splits prod.splits)
  from s(3) obtain l where gl: "gv = Guild g" "fl = Some l" "member_of_link g l = Inr m"
    by (auto simp: duty_off_member_def split: guild_value.splits option.splits sum.splits)
  from s(2) gl(2) have "steam_fivem_link b body = Inr l"
    by (auto simp: duty_off_fivem_link_def split: option.splits sum.splits)
  then have rm: "request_member b body = Some m"
    using steam_fivem_link_request member_of_link_id [OF gl(3)] by simp
  have rg: "request_guild b a = Some (g_id g)"
    using s(1) gl(1) a duty_off_guild_request by simp
  from duty_off_close_ledger [OF s(4)] rm rg show ?thesis by blast
qed

lemma filter_remove1_single:
  "filter P xs = [x] \<Longrightarrow> filter P (remove1 x xs) = []"
proof (induction xs)
  case Nil
  then show ?case by simp
next
  case (Cons a xs)
  show ?case
  proof (cases "P a")
    case True
    then have "a = x" "filter P xs = []" using Cons.prems by simp_all
    then show ?thesis by simp
  next
    case False
    then have f: "filter P xs = [x]" using Cons.prems by simp
    then have "x \<in> set (filter P xs)" by simp
    then have "P x" by simp
    then have "a \<noteq> x" using False by auto
    then show ?thesis using False Cons.IH [OF f] by simp
  qed
qed

text \<open>
  C5: a successful duty-on followed by a successful duty-off for the same member and guild
  leaves no open shift record of the pair, the ledger between the two calls holding at
  most one active shift for the pair, as the data model of the Shift Ledger has it.
\<close>

theorem duty_on_off_no_open_shift:
  assumes on: "POST_duty_on b a1 body1 now1 = Inr (r1, b1)"
    and off: "POST_duty_off cfg b1 a2 body2 now2 = Inr (r2, b2)"
    and g1: "request_guild b a1 = Some gid" and m1: "request_member b body1 = Some m"
    and g2: "request_guild b1 a2 = Some gid" and m2: "request_member b1 body2 = Some m"
    and inv: "length (open_shifts b1 m gid) \<le> 1"
  shows "open_shifts b1 m gid \<noteq> [] \<and> open_shifts b2 m gid = []"
proof -
  let ?P = "shift_of_guild gid"
  from duty_off_success [OF off] g2 m2 obtain doc sh rest where
    doc: "find_one (\<lambda>d. sd_id d = m) (shifts b1) = Some doc"
    and hd: "filter ?P (sd_data doc) = Some sh # rest"
    and b2: "b2 = b1\<lparr>shifts := remove_shift_by_user (shifts b1) m sh\<rparr>"
    by auto
  have open1: "open_shifts b1 m gid = Some sh # rest"
    using doc hd by (simp add: open_shifts_def)
  then have "rest = []" using inv by simp
  then have single: "filter ?P (sd_data doc) = [Some sh]" using hd by simp
  have "open_shifts b2 m gid = filter ?P (remove1 (Some sh) (sd_data doc))"
    using doc by (simp add: b2 open_shifts_remove)
  then have "open_shifts b2 m gid = []"
    using filter_remove1_single [OF single] by simp
  with open1 show ?thesis by simp
qed

lemmas ex_off_simps = POST_duty_off_def validate_authorization_def duty_off_guild_def
  duty_off_fivem_link_def duty_off_member_def duty_off_close_def shift_of_guild_def
  remove_shift_by_user_def Let_def

theorem duty_on_off_no_open_shift_witness:
  "POST_duty_on ex_bot (Some ''tok'')
       (JObj [(''source'', JStr ''fivem''), (''license'', JNull), (''discord'', JNull),
              (''steam_id'', JStr ''steam7'')]) 50
     = Inr (JObj [(''status'', JStr ''success''), (''member'', JInt 7), (''shift_type'', JNull)],
            ex_bot\<lparr>shifts := [\<lparr>sd_id = 7,
              sd_data = [Some \<lparr>sh_guild = 1, sh_shift_type = None\<rparr>]\<rparr>]\<rparr>)
   \<and> POST_duty_off ex_cfg
        (ex_bot\<lparr>shifts := [\<lparr>sd_id = 7,
              sd_data = [Some \<lparr>sh_guild = 1, sh_shift_type = None\<rparr>]\<rparr>]\<rparr>)
        (Some ''tok'') (JObj [(''steam_id'', JStr ''steam7'')]) 60
     = Inr (JNull, ex_bot\<lparr>shifts := [\<lparr>sd_id = 7, sd_data = []\<rparr>]\<rparr>)
   \<and> request_guild ex_bot (Some ''tok'') = Some 1
   \<and> request_member ex_bot
        (JObj [(''source'', JStr ''fivem''), (''license'', JNull), (''discord'', JNull),
               (''steam_id'', JStr ''steam7'')]) = Some 7
   \<and> request_guild
        (ex_bot\<lparr>shifts := [\<lparr>sd_id = 7,
              sd_data = [Some \<lparr>sh_guild = 1, sh_shift_type = None\<rparr>]\<rparr>]\<rparr>) (Some ''tok'') = Some 1
   \<and> request_member
        (ex_bot\<lparr>shifts := [\<lparr>sd_id = 7,
              sd_data = [Some \<lparr>sh_guild = 1, sh_shift_type = None\<rparr>]\<rparr>]\<rparr>)
        (JObj [(''steam_id'', JStr ''steam7'')]) = Some 7
   \<and> length (open_shifts
        (ex_bot\<lparr>shifts := [\<lparr>sd_id = 7,
              sd_data = [Some \<lparr>sh_guild = 1, sh_shift_type = None\<rparr>]\<rparr>]\<rparr>) 7 1) \<le> 1
   \<and> open_shifts (ex_bot\<lparr>shifts := [\<lparr>sd_id = 7, sd_data = []\<rparr>]\<rparr>) 7 1 = []"
proof -
  let ?body1 = "JObj [(''source'', JStr ''fivem''), (''license'', JNull), (''discord'', JNull),
                      (''steam_id'', JStr ''steam7'')]"
  let ?body2 = "JObj [(''steam_id'', JStr ''steam7'')]"
  let ?b1 = "ex_bot\<lparr>shifts := [\<lparr>sd_id = 7,
              sd_data = [Some \<lparr>sh_guild = 1, sh_shift_type = None\<rparr>]\<rparr>]\<rparr>"
  let ?b2 = "ex_bot\<lparr>shifts := [\<lparr>sd_id = 7, sd_data = []\<rparr>]\<rparr>"
  have on: "POST_duty_on ex_bot (Some ''tok'') ?body1 50
     = Inr (JObj [(''status'', JStr ''success''), (''member'', JInt 7), (''shift_type'', JNull)], ?b1)"
    by (simp add: POST_duty_on_def ex_simps)
  have off: "POST_duty_off ex_cfg ?b1 (Some ''tok'') ?body2 60 = Inr (JNull, ?b2)"
    by (simp add: ex_simps ex_off_simps)
  have g1: "request_guild ex_bot (Some ''tok'') = Some 1"
    by (simp add: request_guild_def ex_simps)
  have m1: "request_member ex_bot ?body1 = Some 7"
    by (simp add: request_member_def ex_simps)
  have g2: "request_guild ?b1 (Some ''tok'') = Some 1"
    by (simp add: request_guild_def ex_simps)
  have m2: "request_member ?b1 ?body2 = Some 7"
    by (simp add: request_member_def ex_simps)
  have inv: "length (open_shifts ?b1 7 1) \<le> 1"
    by (simp add: open_shifts_def find_one_def shift_of_guild_def)
  show ?thesis
    using on off g1 m1 g2 m2 inv duty_on_off_no_open_shift [OF on off g1 m1 g2 m2 inv]
    by (simp only: simp_thms)
qed


end
